theory Spec2Isabelle
  imports Main "HOL-Library.Sublist"
begin

section \<open>The assessment runner: crawl, prompt, assistant run, persistence\<close>

text \<open>
  The repository holds three revisions of one script:
  \<^item> the first file of \<^verbatim>\<open>src/unnamed/part_000\<close> (suffix \<open>_early\<close>): no error check on
    the store read, no \<^verbatim>\<open>try\<close>, the crawl request carries \<^verbatim>\<open>url\<close>;
  \<^item> \<^verbatim>\<open>src/index.js\<close> (suffix \<open>_index\<close>): the store read's \<^verbatim>\<open>error\<close> is checked, the crawl
    request carries \<^verbatim>\<open>urls\<close>;
  \<^item> the second file of \<^verbatim>\<open>src/unnamed/part_000\<close> (suffix \<open>_later\<close>): \<^verbatim>\<open>crawl\<close> and the
    assistant and write phase of \<^verbatim>\<open>run\<close> are wrapped in \<^verbatim>\<open>try\<close>/\<^verbatim>\<open>catch\<close>.

  One call of \<^verbatim>\<open>run\<close> is one cycle. The timer that starts the cycles, the construction
  of the clients and the configuration values (endpoint, keys, assistant identity) are
  left out. What the crawl service, the assistant service and the store answer is an
  input of the cycle (the record \<open>env\<close>); what the cycle asks of them is its output (a
  list of \<open>call\<close>s, in the order the awaits are reached) together with the store's
  tables after the cycle.
\<close>

subsection \<open>JavaScript values that arrive as JSON\<close>

text \<open>
  A response body is a parsed JSON value. A parsed object keeps one value per key, so
  \<open>JObj\<close> is read with \<open>map_of\<close>. \<open>None\<close> of type \<open>json option\<close> is \<^verbatim>\<open>undefined\<close>.

  A JavaScript number is a double. \<open>JNum\<close> holds the integer-valued numbers between
  \<open>-(2^53 - 1)\<close> and \<open>2^53 - 1\<close>, the safe integers: a double represents each of them
  exactly, and each is printed as its decimal digits. Other numbers (fractions, larger
  magnitudes) are outside the model.
\<close>

typedef safe_int = "{i :: int. - 9007199254740991 \<le> i \<and> i \<le> 9007199254740991}"
  morphisms int_of_safe safe_of_int
  by (rule exI [of _ 0]) simp

datatype json =
    JNull
  | JBool bool
  | JNum safe_int
  | JStr string
  | JArr "json list"
  | JObj "(string \<times> json) list"

datatype js_error = TypeError | RequestFailed

text \<open>An awaited promise either resolves with a value or rejects; a rejection is thrown
  at the \<^verbatim>\<open>await\<close> as \<open>RequestFailed\<close>.\<close>

datatype 'a reply = Resolved 'a | Rejected

definition and_then :: "js_error + 'a \<Rightarrow> ('a \<Rightarrow> js_error + 'b) \<Rightarrow> js_error + 'b" where
  "and_then m f = (case m of Inl e \<Rightarrow> Inl e | Inr x \<Rightarrow> f x)"

text \<open>\<^verbatim>\<open>if (v)\<close>, \<^verbatim>\<open>v || w\<close>: the falsy values are \<^verbatim>\<open>undefined\<close>, \<^verbatim>\<open>null\<close>, \<^verbatim>\<open>false\<close>, \<^verbatim>\<open>0\<close>
  and the empty string.\<close>

fun truthy :: "json option \<Rightarrow> bool" where
  "truthy None = False"
| "truthy (Some JNull) = False"
| "truthy (Some (JBool b)) = b"
| "truthy (Some (JNum n)) = (int_of_safe n \<noteq> 0)"
| "truthy (Some (JStr s)) = (s \<noteq> [])"
| "truthy (Some (JArr xs)) = True"
| "truthy (Some (JObj kvs)) = True"

definition or_else :: "json option \<Rightarrow> json option \<Rightarrow> json option" where
  "or_else a b = (if truthy a then a else b)"

text \<open>
  \<^verbatim>\<open>v.k\<close> for the property names the script reads (\<^verbatim>\<open>pages\<close>, \<^verbatim>\<open>title\<close>, \<^verbatim>\<open>url\<close>, \<^verbatim>\<open>text\<close>,
  \<^verbatim>\<open>data\<close>, \<^verbatim>\<open>content\<close>, \<^verbatim>\<open>value\<close>): none of them is defined by a built-in prototype, so
  only an object can have one. Reading a property of \<^verbatim>\<open>undefined\<close> or \<^verbatim>\<open>null\<close> throws.
\<close>

fun member :: "json option \<Rightarrow> string \<Rightarrow> js_error + json option" where
  "member None k = Inl TypeError"
| "member (Some JNull) k = Inl TypeError"
| "member (Some (JObj kvs)) k = Inr (map_of kvs k)"
| "member (Some v) k = Inr None"

text \<open>\<^verbatim>\<open>v[0]\<close>: the first element of an array, the key \<^verbatim>\<open>"0"\<close> of an object, the first
  character of a string.\<close>

fun at0 :: "json option \<Rightarrow> js_error + json option" where
  "at0 None = Inl TypeError"
| "at0 (Some JNull) = Inl TypeError"
| "at0 (Some (JArr xs)) = Inr (case xs of [] \<Rightarrow> None | x # _ \<Rightarrow> Some x)"
| "at0 (Some (JObj kvs)) = Inr (map_of kvs ''0'')"
| "at0 (Some (JStr s)) = Inr (if s = [] then None else Some (JStr (take 1 s)))"
| "at0 (Some v) = Inr None"

text \<open>\<^verbatim>\<open>v?.k\<close> and \<^verbatim>\<open>v?.[0]\<close>: \<^verbatim>\<open>undefined\<close> where the plain access would throw.\<close>

definition opt_member :: "json option \<Rightarrow> string \<Rightarrow> json option" where
  "opt_member v k = (case member v k of Inl e \<Rightarrow> None | Inr r \<Rightarrow> r)"

definition opt_at0 :: "json option \<Rightarrow> json option" where
  "opt_at0 v = (case at0 v of Inl e \<Rightarrow> None | Inr r \<Rightarrow> r)"

text \<open>The decimal digits of a natural number.\<close>

fun show_nat :: "nat \<Rightarrow> string" where
  "show_nat n =
     (if n < 10 then [char_of (48 + n)]
      else show_nat (n div 10) @ [char_of (48 + n mod 10)])"

declare show_nat.simps [simp del]

text \<open>\<^verbatim>\<open>${n}\<close> for a safe integer: a minus sign when it is negative, then the digits of
  its magnitude.\<close>

definition show_number :: "safe_int \<Rightarrow> string" where
  "show_number n =
     (if int_of_safe n < 0 then CHR ''-'' # show_nat (nat (- int_of_safe n))
      else show_nat (nat (int_of_safe n)))"

text \<open>
  \<^verbatim>\<open>${v}\<close>: the string a template literal puts in place of a value. An array prints its
  elements separated by commas, \<^verbatim>\<open>null\<close> elements as nothing; an object prints as
  \<^verbatim>\<open>[object Object]\<close>, unless it has a key \<^verbatim>\<open>toString\<close> of its own, which is not
  callable, and the conversion throws.
\<close>

fun to_string :: "json \<Rightarrow> js_error + string"
  and join_elements :: "json list \<Rightarrow> js_error + string" where
  "to_string JNull = Inr ''null''"
| "to_string (JBool b) = Inr (if b then ''true'' else ''false'')"
| "to_string (JNum n) = Inr (show_number n)"
| "to_string (JStr s) = Inr s"
| "to_string (JArr xs) = join_elements xs"
| "to_string (JObj kvs) =
     (if ''toString'' \<in> set (map fst kvs) then Inl TypeError else Inr ''[object Object]'')"
| "join_elements [] = Inr []"
| "join_elements [x] = (if x = JNull then Inr [] else to_string x)"
| "join_elements (x # y # ys) =
     and_then (if x = JNull then Inr [] else to_string x) (\<lambda>a.
     and_then (join_elements (y # ys)) (\<lambda>b. Inr (a @ '','' @ b)))"

definition interpolate :: "json option \<Rightarrow> js_error + string" where
  "interpolate v = (case v of None \<Rightarrow> Inr ''undefined'' | Some j \<Rightarrow> to_string j)"

subsection \<open>The crawl fetcher\<close>

datatype target = Url string | Urls "string list"

record crawl_body =
  target :: target
  maxPages :: nat
  depth :: nat
  crawlJs :: bool
  htmlOnly :: bool

datatype log_line =
    QueryError
  | ProcessingTrigger int
  | UnexpectedFormat
  | CrawlException
  | WriteFailed
  | AssessmentDone string

subsection \<open>Records of the store\<close>

text \<open>
  The field \<^verbatim>\<open>id\<close> of a trigger is \<open>trigger_id\<close> and its \<^verbatim>\<open>context\<close> is \<open>context_text\<close>;
  the fields of an assessment row that repeat the trigger's carry the prefix \<open>a_\<close>.
  The text fields of a trigger are strings, \<^verbatim>\<open>supplemental_links\<close> is any JSON value.
\<close>

record trigger =
  trigger_id :: int
  status :: string
  investor_name :: string
  investor_site :: string
  company_name :: string
  company_url :: string
  context_text :: string
  supplemental_links :: json

record assessment =
  a_investor_name :: string
  a_investor_site :: string
  a_company_name :: string
  a_company_url :: string
  a_context :: string
  report_json :: "json option"

record audit_log =
  action :: string
  source_url :: string
  confidence_score :: int
  details :: string

record store =
  triggers :: "trigger list"
  assessments :: "assessment list"
  audit_logs :: "audit_log list"

subsection \<open>What a cycle asks of the outside\<close>

datatype call =
    SelectQueued
  | CrawlPost crawl_body
  | ThreadsCreate
  | MessagesCreate string string
  | RunsCreate string
  | RunsRetrieve string string
  | Sleep nat
  | MessagesList string
  | InsertAssessment assessment
  | InsertAuditLog audit_log
  | UpdateStatusComplete int
  | ConsoleLog log_line
  | ConsoleError log_line

subsection \<open>The crawl fetcher's functions\<close>

definition body_url :: "string \<Rightarrow> crawl_body" where
  "body_url url =
     \<lparr>target = Url url, maxPages = 20, depth = 2, crawlJs = True, htmlOnly = False\<rparr>"

definition body_urls :: "string \<Rightarrow> crawl_body" where
  "body_urls url =
     \<lparr>target = Urls [url], maxPages = 20, depth = 2, crawlJs = True, htmlOnly = False\<rparr>"

text \<open>\<^verbatim>\<open>p => `## ${p.title} (${p.url})\n${p.text}`\<close>\<close>

definition format_page :: "json \<Rightarrow> js_error + string" where
  "format_page p =
     and_then (and_then (member (Some p) ''title'') interpolate) (\<lambda>title.
     and_then (and_then (member (Some p) ''url'') interpolate) (\<lambda>url.
     and_then (and_then (member (Some p) ''text'') interpolate) (\<lambda>txt.
     Inr (''## '' @ title @ '' ('' @ url @ '')\<newline>'' @ txt))))"

text \<open>\<^verbatim>\<open>.map(f)\<close> with a callback that may throw: the first throw ends the map.\<close>

fun map_throwing :: "('a \<Rightarrow> js_error + 'b) \<Rightarrow> 'a list \<Rightarrow> js_error + 'b list" where
  "map_throwing f [] = Inr []"
| "map_throwing f (x # xs) =
     and_then (f x) (\<lambda>y. and_then (map_throwing f xs) (\<lambda>ys. Inr (y # ys)))"

text \<open>\<^verbatim>\<open>.join(sep)\<close> on an array of strings.\<close>

fun join :: "string \<Rightarrow> string list \<Rightarrow> string" where
  "join sep [] = []"
| "join sep [x] = x"
| "join sep (x # y # ys) = x @ sep @ join sep (y # ys)"

definition format_pages :: "json list \<Rightarrow> js_error + string" where
  "format_pages pages =
     and_then (map_throwing format_page pages) (\<lambda>blocks. Inr (join ''\<newline>\<newline>'' blocks))"

text \<open>\<^verbatim>\<open>res.data.pages.map(...).join('\n\n')\<close>: calling \<^verbatim>\<open>.map\<close> on anything but an array
  throws.\<close>

definition pages_text :: "json \<Rightarrow> js_error + string" where
  "pages_text d =
     and_then (member (Some d) ''pages'') (\<lambda>pages.
       case pages of Some (JArr ps) \<Rightarrow> format_pages ps | _ \<Rightarrow> Inl TypeError)"

text \<open>The first file of \<^verbatim>\<open>part_000\<close>, lines 9-18.\<close>

definition crawl_early :: "json reply \<Rightarrow> string \<Rightarrow> (js_error + string) \<times> call list" where
  "crawl_early res url =
     (case res of
        Rejected \<Rightarrow> (Inl RequestFailed, [CrawlPost (body_url url)])
      | Resolved d \<Rightarrow> (pages_text d, [CrawlPost (body_url url)]))"

text \<open>\<^verbatim>\<open>src/index.js\<close>, lines 11-23.\<close>

definition crawl_index :: "json reply \<Rightarrow> string \<Rightarrow> (js_error + string) \<times> call list" where
  "crawl_index res url =
     (case res of
        Rejected \<Rightarrow> (Inl RequestFailed, [CrawlPost (body_urls url)])
      | Resolved d \<Rightarrow> (pages_text d, [CrawlPost (body_urls url)]))"

text \<open>\<^verbatim>\<open>res.data.pages || res.data?.[0]?.pages || []\<close>\<close>

definition pick_pages :: "json \<Rightarrow> js_error + json" where
  "pick_pages d =
     and_then (member (Some d) ''pages'') (\<lambda>top.
       case or_else (or_else top (opt_member (opt_at0 (Some d)) ''pages'')) (Some (JArr [])) of
         Some pages \<Rightarrow> Inr pages
       | None \<Rightarrow> Inr (JArr []))"

definition crawl_failed_format :: string where
  "crawl_failed_format = ''Crawl failed: no structured page content returned.''"

definition crawl_failed_exception :: string where
  "crawl_failed_exception = ''Crawl failed: exception thrown.''"

text \<open>The body of the \<^verbatim>\<open>try\<close> of the second file of \<^verbatim>\<open>part_000\<close>, lines 110-127: the text
  it returns and whether it logged the unexpected format.\<close>

definition crawl_later_try :: "json reply \<Rightarrow> js_error + string \<times> call list" where
  "crawl_later_try res =
     (case res of
        Rejected \<Rightarrow> Inl RequestFailed
      | Resolved d \<Rightarrow>
          and_then (pick_pages d) (\<lambda>pages.
            case pages of
              JArr ps \<Rightarrow> and_then (format_pages ps) (\<lambda>txt. Inr (txt, []))
            | _ \<Rightarrow> Inr (crawl_failed_format, [ConsoleError UnexpectedFormat])))"

text \<open>The second file of \<^verbatim>\<open>part_000\<close>, lines 108-132: the \<^verbatim>\<open>catch\<close> turns every throw into
  a string.\<close>

definition crawl_later :: "json reply \<Rightarrow> string \<Rightarrow> string \<times> call list" where
  "crawl_later res url =
     (case crawl_later_try res of
        Inl err \<Rightarrow> (crawl_failed_exception, [CrawlPost (body_urls url), ConsoleError CrawlException])
      | Inr (txt, logged) \<Rightarrow> (txt, CrawlPost (body_urls url) # logged))"

subsection \<open>The prompt builder\<close>

text \<open>
  The template literal of \<^verbatim>\<open>run\<close> (\<^verbatim>\<open>src/index.js\<close>, lines 46-63; the same text in both
  files of \<^verbatim>\<open>part_000\<close>). \<^verbatim>\<open>JSON.stringify\<close> is the language's serializer and is taken as
  the parameter \<open>stringify\<close>.
\<close>

definition build_prompt :: "(json \<Rightarrow> string) \<Rightarrow> trigger \<Rightarrow> string \<Rightarrow> string \<Rightarrow> string" where
  "build_prompt stringify trigger investorText companyText =
     ''\<newline>Investor Profile Input:\<newline>- PE/VC Firm Name: '' @ investor_name trigger @
     ''\<newline>- Website: '' @ investor_site trigger @
     ''\<newline>- Supplemental Links: '' @ stringify (supplemental_links trigger) @
     ''\<newline>\<newline>Target Company Input:\<newline>- Company Name: '' @ company_name trigger @
     ''\<newline>- Website: '' @ company_url trigger @
     ''\<newline>- Assessment Context: '' @ context_text trigger @
     ''\<newline>\<newline>Extracted Content:\<newline>## Investor Pages\<newline>'' @ investorText @
     ''\<newline>\<newline>## Company Pages\<newline>'' @ companyText @
     ''\<newline>''"

subsection \<open>The outside of a cycle\<close>

text \<open>
  The store's client resolves with an object \<^verbatim>\<open>{ data, error }\<close> (\<^verbatim>\<open>run\<close> destructures
  it at the read); a write resolves with its \<^verbatim>\<open>error\<close>, which the script never reads.
  \<open>crawl_reply\<close> is indexed by the number of the crawl in the cycle (0 the investor
  site, 1 the company site), \<open>runs_retrieve\<close> by the number of the poll.
\<close>

record select_result =
  data :: "trigger list option"
  error :: "string option"

record env =
  json_stringify :: "json \<Rightarrow> string"
  select_reply :: "select_result reply"
  crawl_reply :: "nat \<Rightarrow> string \<Rightarrow> json reply"
  threads_create :: "string reply"
  messages_create :: "unit reply"
  runs_create :: "string reply"
  runs_retrieve :: "nat \<Rightarrow> string reply"
  messages_list :: "json reply"
  insert_assessment_reply :: "string option reply"
  insert_audit_reply :: "string option reply"
  update_status_reply :: "string option reply"

text \<open>What the store does with the three requests of the script. A read that finds
  the store in order answers \<open>select_queued\<close>; a write that resolves without an error
  changes the table, any other write leaves it as it was.\<close>

definition select_queued :: "trigger list \<Rightarrow> select_result" where
  "select_queued ts =
     \<lparr>data = Some (take 1 (filter (\<lambda>t. status t = ''queued'') ts)), error = None\<rparr>"

definition insert_assessment :: "string option reply \<Rightarrow> assessment \<Rightarrow> store \<Rightarrow> store" where
  "insert_assessment r row s =
     (if r = Resolved None then s\<lparr>assessments := assessments s @ [row]\<rparr> else s)"

definition insert_audit_log :: "string option reply \<Rightarrow> audit_log \<Rightarrow> store \<Rightarrow> store" where
  "insert_audit_log r row s =
     (if r = Resolved None then s\<lparr>audit_logs := audit_logs s @ [row]\<rparr> else s)"

definition update_status_complete :: "string option reply \<Rightarrow> int \<Rightarrow> store \<Rightarrow> store" where
  "update_status_complete r i s =
     (if r = Resolved None
      then s\<lparr>triggers :=
             map (\<lambda>t. if trigger_id t = i then t\<lparr>status := ''complete''\<rparr> else t) (triggers s)\<rparr>
      else s)"

subsection \<open>The assistant run driver\<close>

text \<open>
  The \<^verbatim>\<open>while (true)\<close> of \<^verbatim>\<open>run\<close> (\<^verbatim>\<open>src/index.js\<close>, lines 76-80): poll \<open>k\<close> asks for the
  run's status, leaves the loop on \<^verbatim>\<open>completed\<close> and sleeps 2000 ms otherwise. The
  loop has no bound: \<open>None\<close> is the loop that never ends.
\<close>

partial_function (option) poll_run ::
  "(nat \<Rightarrow> string reply) \<Rightarrow> string \<Rightarrow> string \<Rightarrow> nat \<Rightarrow> call list
     \<Rightarrow> ((js_error + unit) \<times> call list) option" where
  "poll_run retrieve thread_id run_id k cs =
     (case retrieve k of
        Rejected \<Rightarrow> Some (Inl RequestFailed, cs @ [RunsRetrieve thread_id run_id])
      | Resolved st \<Rightarrow>
          if st = ''completed'' then Some (Inr (), cs @ [RunsRetrieve thread_id run_id])
          else poll_run retrieve thread_id run_id (Suc k)
                 (cs @ [RunsRetrieve thread_id run_id, Sleep 2000]))"

declare poll_run.simps [code]

text \<open>\<^verbatim>\<open>messages.data[0].content[0].text.value\<close>\<close>

definition first_message_text :: "json \<Rightarrow> js_error + json option" where
  "first_message_text messages =
     and_then (member (Some messages) ''data'') (\<lambda>d.
     and_then (at0 d) (\<lambda>m.
     and_then (member m ''content'') (\<lambda>c.
     and_then (at0 c) (\<lambda>b.
     and_then (member b ''text'') (\<lambda>t.
     member t ''value'')))))"

text \<open>\<^verbatim>\<open>src/index.js\<close>, lines 66-83 (\<^verbatim>\<open>part_000\<close>: lines 53-70 and 174-192): thread, message,
  run, polling, reading the answer. The calls made so far are kept when a step throws.\<close>

definition ask_assistant :: "env \<Rightarrow> string \<Rightarrow> ((js_error + json option) \<times> call list) option" where
  "ask_assistant env prompt =
     (case threads_create env of
        Rejected \<Rightarrow> Some (Inl RequestFailed, [ThreadsCreate])
      | Resolved thread_id \<Rightarrow>
     (case messages_create env of
        Rejected \<Rightarrow>
          Some (Inl RequestFailed, [ThreadsCreate, MessagesCreate thread_id prompt])
      | Resolved _ \<Rightarrow>
     (case runs_create env of
        Rejected \<Rightarrow>
          Some (Inl RequestFailed,
                [ThreadsCreate, MessagesCreate thread_id prompt, RunsCreate thread_id])
      | Resolved run_id \<Rightarrow>
     (case poll_run (runs_retrieve env) thread_id run_id 0
             [ThreadsCreate, MessagesCreate thread_id prompt, RunsCreate thread_id] of
        None \<Rightarrow> None
      | Some (Inl e, cs) \<Rightarrow> Some (Inl e, cs)
      | Some (Inr _, cs) \<Rightarrow>
     (case messages_list env of
        Rejected \<Rightarrow> Some (Inl RequestFailed, cs @ [MessagesList thread_id])
      | Resolved messages \<Rightarrow>
          Some (first_message_text messages, cs @ [MessagesList thread_id]))))))"

subsection \<open>The persistence writer\<close>

definition assessment_row :: "trigger \<Rightarrow> json option \<Rightarrow> assessment" where
  "assessment_row trigger report =
     \<lparr>a_investor_name = investor_name trigger,
      a_investor_site = investor_site trigger,
      a_company_name = company_name trigger,
      a_company_url = company_url trigger,
      a_context = context_text trigger,
      report_json = report\<rparr>"

text \<open>The audit row of \<^verbatim>\<open>src/index.js\<close> (lines 95-100) and of the first file of
  \<^verbatim>\<open>part_000\<close> (lines 85-90).\<close>

definition audit_row_stored :: "trigger \<Rightarrow> audit_log" where
  "audit_row_stored trigger =
     \<lparr>action = ''Assessment Complete'',
      source_url = company_url trigger,
      confidence_score = 90,
      details = ''Report stored''\<rparr>"

text \<open>The audit row of the second file of \<^verbatim>\<open>part_000\<close> (lines 205-212).\<close>

definition audit_row_later :: "trigger \<Rightarrow> audit_log" where
  "audit_row_later trigger =
     \<lparr>action = ''Assessment Complete'',
      source_url = company_url trigger,
      confidence_score = 90,
      details = ''Assessment stored successfully''\<rparr>"

text \<open>The first file of \<^verbatim>\<open>part_000\<close>, lines 72-90: report, status, audit.\<close>

definition persist_early ::
  "env \<Rightarrow> trigger \<Rightarrow> json option \<Rightarrow> store \<Rightarrow> (js_error + unit) \<times> call list \<times> store" where
  "persist_early env trigger result s =
     (let row = assessment_row trigger result;
          s1 = insert_assessment (insert_assessment_reply env) row s
      in if insert_assessment_reply env = Rejected
         then (Inl RequestFailed, [InsertAssessment row], s1)
         else
     (let s2 = update_status_complete (update_status_reply env) (trigger_id trigger) s1
      in if update_status_reply env = Rejected
         then (Inl RequestFailed,
               [InsertAssessment row, UpdateStatusComplete (trigger_id trigger)], s2)
         else
     (let entry = audit_row_stored trigger;
          s3 = insert_audit_log (insert_audit_reply env) entry s2
      in if insert_audit_reply env = Rejected
         then (Inl RequestFailed,
               [InsertAssessment row, UpdateStatusComplete (trigger_id trigger),
                InsertAuditLog entry], s3)
         else (Inr (),
               [InsertAssessment row, UpdateStatusComplete (trigger_id trigger),
                InsertAuditLog entry], s3))))"

text \<open>\<^verbatim>\<open>src/index.js\<close>, lines 86-107, and the second file of \<^verbatim>\<open>part_000\<close>, lines 194-219:
  report, audit, status, then the closing log line. The two differ in the audit row
  only, the parameter \<open>audit_row\<close>.\<close>

definition persist ::
  "(trigger \<Rightarrow> audit_log) \<Rightarrow> env \<Rightarrow> trigger \<Rightarrow> json option \<Rightarrow> store
     \<Rightarrow> (js_error + unit) \<times> call list \<times> store" where
  "persist audit_row env trigger report s =
     (let row = assessment_row trigger report;
          s1 = insert_assessment (insert_assessment_reply env) row s
      in if insert_assessment_reply env = Rejected
         then (Inl RequestFailed, [InsertAssessment row], s1)
         else
     (let entry = audit_row trigger;
          s2 = insert_audit_log (insert_audit_reply env) entry s1
      in if insert_audit_reply env = Rejected
         then (Inl RequestFailed, [InsertAssessment row, InsertAuditLog entry], s2)
         else
     (let s3 = update_status_complete (update_status_reply env) (trigger_id trigger) s2
      in if update_status_reply env = Rejected
         then (Inl RequestFailed,
               [InsertAssessment row, InsertAuditLog entry,
                UpdateStatusComplete (trigger_id trigger)], s3)
         else (Inr (),
               [InsertAssessment row, InsertAuditLog entry,
                UpdateStatusComplete (trigger_id trigger),
                ConsoleLog (AssessmentDone (company_name trigger))], s3))))"

definition persist_index ::
  "env \<Rightarrow> trigger \<Rightarrow> json option \<Rightarrow> store \<Rightarrow> (js_error + unit) \<times> call list \<times> store" where
  "persist_index = persist audit_row_stored"

definition persist_later ::
  "env \<Rightarrow> trigger \<Rightarrow> json option \<Rightarrow> store \<Rightarrow> (js_error + unit) \<times> call list \<times> store" where
  "persist_later = persist audit_row_later"

subsection \<open>One cycle\<close>

text \<open>How the promise of \<^verbatim>\<open>run\<close> settles: it resolves, or it rejects with what was
  thrown and not caught. A cycle that never settles is \<open>None\<close>.\<close>

datatype outcome = Returned | Threw js_error

type_synonym cycle = "(outcome \<times> call list \<times> store) option"

text \<open>The first file of \<^verbatim>\<open>part_000\<close>, lines 29-91: the cycle from the chosen trigger on.\<close>

definition process_early :: "env \<Rightarrow> trigger \<Rightarrow> store \<Rightarrow> cycle" where
  "process_early env trigger s =
     (case crawl_early (crawl_reply env 0 (investor_site trigger)) (investor_site trigger) of
        (Inl e, c1) \<Rightarrow> Some (Threw e, c1, s)
      | (Inr investorText, c1) \<Rightarrow>
     (case crawl_early (crawl_reply env 1 (company_url trigger)) (company_url trigger) of
        (Inl e, c2) \<Rightarrow> Some (Threw e, c1 @ c2, s)
      | (Inr companyText, c2) \<Rightarrow>
     (case ask_assistant env
             (build_prompt (json_stringify env) trigger investorText companyText) of
        None \<Rightarrow> None
      | Some (Inl e, c3) \<Rightarrow> Some (Threw e, c1 @ c2 @ c3, s)
      | Some (Inr result, c3) \<Rightarrow>
     (case persist_early env trigger result s of
        (Inl e, c4, s') \<Rightarrow> Some (Threw e, c1 @ c2 @ c3 @ c4, s')
      | (Inr _, c4, s') \<Rightarrow> Some (Returned, c1 @ c2 @ c3 @ c4, s')))))"

text \<open>The first file of \<^verbatim>\<open>part_000\<close>, lines 20-27: the read's \<^verbatim>\<open>error\<close> is not looked at.\<close>

definition run_early :: "env \<Rightarrow> store \<Rightarrow> cycle" where
  "run_early env s =
     (case select_reply env of
        Rejected \<Rightarrow> Some (Threw RequestFailed, [SelectQueued], s)
      | Resolved res \<Rightarrow>
          (case data res of
             None \<Rightarrow> Some (Returned, [SelectQueued], s)
           | Some [] \<Rightarrow> Some (Returned, [SelectQueued], s)
           | Some (trigger # _) \<Rightarrow>
               map_option (\<lambda>(out, cs, s'). (out, SelectQueued # cs, s'))
                 (process_early env trigger s)))"

text \<open>\<^verbatim>\<open>src/index.js\<close>, lines 40-107.\<close>

definition process_index :: "env \<Rightarrow> trigger \<Rightarrow> store \<Rightarrow> cycle" where
  "process_index env trigger s =
     (case crawl_index (crawl_reply env 0 (investor_site trigger)) (investor_site trigger) of
        (Inl e, c1) \<Rightarrow> Some (Threw e, c1, s)
      | (Inr investorText, c1) \<Rightarrow>
     (case crawl_index (crawl_reply env 1 (company_url trigger)) (company_url trigger) of
        (Inl e, c2) \<Rightarrow> Some (Threw e, c1 @ c2, s)
      | (Inr companyText, c2) \<Rightarrow>
     (case ask_assistant env
             (build_prompt (json_stringify env) trigger investorText companyText) of
        None \<Rightarrow> None
      | Some (Inl e, c3) \<Rightarrow> Some (Threw e, c1 @ c2 @ c3, s)
      | Some (Inr report, c3) \<Rightarrow>
     (case persist_index env trigger report s of
        (Inl e, c4, s') \<Rightarrow> Some (Threw e, c1 @ c2 @ c3 @ c4, s')
      | (Inr _, c4, s') \<Rightarrow> Some (Returned, c1 @ c2 @ c3 @ c4, s')))))"

text \<open>\<^verbatim>\<open>src/index.js\<close>, lines 26-41.\<close>

definition run_index :: "env \<Rightarrow> store \<Rightarrow> cycle" where
  "run_index env s =
     (case select_reply env of
        Rejected \<Rightarrow> Some (Threw RequestFailed, [SelectQueued], s)
      | Resolved res \<Rightarrow>
          if error res \<noteq> None
          then Some (Returned, [SelectQueued, ConsoleError QueryError], s)
          else
          (case data res of
             None \<Rightarrow> Some (Returned, [SelectQueued], s)
           | Some [] \<Rightarrow> Some (Returned, [SelectQueued], s)
           | Some (trigger # _) \<Rightarrow>
               map_option
                 (\<lambda>(out, cs, s').
                    (out,
                     SelectQueued # ConsoleLog (ProcessingTrigger (trigger_id trigger)) # cs,
                     s'))
                 (process_index env trigger s)))"

text \<open>The second file of \<^verbatim>\<open>part_000\<close>, lines 148-222: \<^verbatim>\<open>crawl\<close> cannot throw, and what
  the assistant or a write throws is caught and logged.\<close>

definition process_later :: "env \<Rightarrow> trigger \<Rightarrow> store \<Rightarrow> cycle" where
  "process_later env trigger s =
     (case crawl_later (crawl_reply env 0 (investor_site trigger)) (investor_site trigger) of
        (investorText, c1) \<Rightarrow>
     (case crawl_later (crawl_reply env 1 (company_url trigger)) (company_url trigger) of
        (companyText, c2) \<Rightarrow>
     (case ask_assistant env
             (build_prompt (json_stringify env) trigger investorText companyText) of
        None \<Rightarrow> None
      | Some (Inl err, c3) \<Rightarrow>
          Some (Returned, c1 @ c2 @ c3 @ [ConsoleError WriteFailed], s)
      | Some (Inr result, c3) \<Rightarrow>
     (case persist_later env trigger result s of
        (Inl err, c4, s') \<Rightarrow>
          Some (Returned, c1 @ c2 @ c3 @ c4 @ [ConsoleError WriteFailed], s')
      | (Inr _, c4, s') \<Rightarrow> Some (Returned, c1 @ c2 @ c3 @ c4, s')))))"

text \<open>The second file of \<^verbatim>\<open>part_000\<close>, lines 134-149.\<close>

definition run_later :: "env \<Rightarrow> store \<Rightarrow> cycle" where
  "run_later env s =
     (case select_reply env of
        Rejected \<Rightarrow> Some (Threw RequestFailed, [SelectQueued], s)
      | Resolved res \<Rightarrow>
          if error res \<noteq> None
          then Some (Returned, [SelectQueued, ConsoleError QueryError], s)
          else
          (case data res of
             None \<Rightarrow> Some (Returned, [SelectQueued], s)
           | Some [] \<Rightarrow> Some (Returned, [SelectQueued], s)
           | Some (trigger # _) \<Rightarrow>
               map_option
                 (\<lambda>(out, cs, s').
                    (out,
                     SelectQueued # ConsoleLog (ProcessingTrigger (trigger_id trigger)) # cs,
                     s'))
                 (process_later env trigger s)))"

text \<open>How the promise settles when the write phase is not inside a \<^verbatim>\<open>try\<close>.\<close>

definition settle :: "js_error + unit \<Rightarrow> outcome" where
  "settle r = (case r of Inl e \<Rightarrow> Threw e | Inr u \<Rightarrow> Returned)"

subsection \<open>Kinds of calls\<close>

fun is_crawl :: "call \<Rightarrow> bool" where
  "is_crawl (CrawlPost b) = True"
| "is_crawl c = False"

fun is_assistant_call :: "call \<Rightarrow> bool" where
  "is_assistant_call ThreadsCreate = True"
| "is_assistant_call (MessagesCreate t p) = True"
| "is_assistant_call (RunsCreate t) = True"
| "is_assistant_call (RunsRetrieve t r) = True"
| "is_assistant_call (MessagesList t) = True"
| "is_assistant_call c = False"

fun is_store_write :: "call \<Rightarrow> bool" where
  "is_store_write (InsertAssessment a) = True"
| "is_store_write (InsertAuditLog l) = True"
| "is_store_write (UpdateStatusComplete i) = True"
| "is_store_write c = False"


subsection \<open>Reading a trace\<close>

fun crawl_posts :: "call list \<Rightarrow> crawl_body list" where
  "crawl_posts [] = []"
| "crawl_posts (CrawlPost b # cs) = b # crawl_posts cs"
| "crawl_posts (c # cs) = crawl_posts cs"

definition store_writes :: "cycle \<Rightarrow> call list" where
  "store_writes c = (case c of None \<Rightarrow> [] | Some (out, cs, s') \<Rightarrow> filter is_store_write cs)"

definition calls_of :: "cycle \<Rightarrow> call list" where
  "calls_of c = (case c of None \<Rightarrow> [] | Some (out, cs, s') \<Rightarrow> cs)"

definition final_store :: "cycle \<Rightarrow> store option" where
  "final_store c = map_option (\<lambda>(out, cs, s'). s') c"

subsection \<open>The specification's words for the crawl text\<close>

text \<open>A page as the crawl service documents it: an object whose \<^verbatim>\<open>title\<close>, \<^verbatim>\<open>url\<close> and
  \<^verbatim>\<open>text\<close> are strings.\<close>

fun page_fields :: "json \<Rightarrow> (string \<times> string \<times> string) option" where
  "page_fields (JObj kvs) =
     (case (map_of kvs ''title'', map_of kvs ''url'', map_of kvs ''text'') of
        (Some (JStr t), Some (JStr u), Some (JStr x)) \<Rightarrow> Some (t, u, x)
      | _ \<Rightarrow> None)"
| "page_fields j = None"

text \<open>The heading made of title and URL, a line break, the page's text.\<close>

fun page_block :: "string \<times> string \<times> string \<Rightarrow> string" where
  "page_block (t, u, x) = ''## '' @ t @ '' ('' @ u @ '')'' @ ''\<newline>'' @ x"

text \<open>The blocks in order, a blank line between two of them.\<close>

fun blocks_text :: "(string \<times> string \<times> string) list \<Rightarrow> string" where
  "blocks_text [] = []"
| "blocks_text [p] = page_block p"
| "blocks_text (p # q # ps) = page_block p @ ''\<newline>\<newline>'' @ blocks_text (q # ps)"

text \<open>\<^verbatim>\<open>Array.isArray\<close>\<close>

fun is_array :: "json \<Rightarrow> bool" where
  "is_array (JArr xs) = True"
| "is_array j = False"

subsection \<open>The example of the specification\<close>

text \<open>
  The trigger of the specification's example, a crawl service that answers one page
  \<^verbatim>\<open>Home\<close> for each site, a run that is \<^verbatim>\<open>completed\<close> at the third poll, and a store
  in order. The serializer of the example is a stand-in: it answers the serialization
  of the example's links.
\<close>

definition home_page :: "string \<Rightarrow> json" where
  "home_page url =
     JObj [(''title'', JStr ''Home''), (''url'', JStr url), (''text'', JStr ''...'')]"

definition acme_trigger :: trigger where
  "acme_trigger =
     \<lparr>trigger_id = 1, status = ''queued'',
      investor_name = ''Acme Capital'', investor_site = ''https://acme.vc'',
      company_name = ''Widget Co'', company_url = ''https://widget.co'',
      context_text = ''Series A diligence'',
      supplemental_links = JArr [JStr ''https://acme.vc/portfolio'']\<rparr>"

definition acme_store :: store where
  "acme_store = \<lparr>triggers = [acme_trigger], assessments = [], audit_logs = []\<rparr>"

definition acme_messages :: json where
  "acme_messages =
     JObj [(''data'',
       JArr [JObj [(''content'',
         JArr [JObj [(''text'', JObj [(''value'', JStr ''report'')])]])]])]"

definition acme_env :: env where
  "acme_env =
     \<lparr>json_stringify = (\<lambda>j. ''[\"https://acme.vc/portfolio\"]''),
      select_reply = Resolved (select_queued [acme_trigger]),
      crawl_reply = (\<lambda>n url. Resolved (JObj [(''pages'', JArr [home_page url])])),
      threads_create = Resolved ''thread_1'',
      messages_create = Resolved (),
      runs_create = Resolved ''run_1'',
      runs_retrieve = (\<lambda>k. if k < 2 then Resolved ''in_progress'' else Resolved ''completed''),
      messages_list = Resolved acme_messages,
      insert_assessment_reply = Resolved None,
      insert_audit_reply = Resolved None,
      update_status_reply = Resolved None\<rparr>"


section \<open>The crawl fetcher\<close>

lemma format_page_fields:
  "page_fields p = Some f \<Longrightarrow> format_page p = Inr (page_block f)"
  by (cases p; cases f)
     (auto simp: format_page_def and_then_def interpolate_def
           split: option.splits json.splits)

lemma map_throwing_pages:
  "map page_fields ps = map Some fs \<Longrightarrow> map_throwing format_page ps = Inr (map page_block fs)"
proof (induction ps arbitrary: fs)
  case Nil then show ?case by simp
next
  case (Cons p ps)
  then obtain f fs' where fs: "fs = f # fs'" by (cases fs) auto
  with Cons.prems have "page_fields p = Some f" "map page_fields ps = map Some fs'" by auto
  with Cons.IH fs show ?case by (simp add: format_page_fields and_then_def)
qed

lemma join_blocks: "join ''\<newline>\<newline>'' (map page_block fs) = blocks_text fs"
  by (induction fs rule: blocks_text.induct) simp_all

lemma format_pages_fields:
  "map page_fields ps = map Some fs \<Longrightarrow> format_pages ps = Inr (blocks_text fs)"
  by (simp add: format_pages_def map_throwing_pages and_then_def join_blocks)

lemma pick_top: "map_of kvs ''pages'' = Some (JArr ps) \<Longrightarrow> pick_pages (JObj kvs) = Inr (JArr ps)"
  by (simp add: pick_pages_def and_then_def or_else_def)

lemma pick_nested:
  "map_of kvs ''pages'' = Some (JArr ps) \<Longrightarrow> pick_pages (JArr (JObj kvs # rest)) = Inr (JArr ps)"
  by (simp add: pick_pages_def and_then_def or_else_def opt_member_def opt_at0_def)

text \<open>
  C2, as amended. Let the pages be objects with string \<^verbatim>\<open>title\<close>, \<^verbatim>\<open>url\<close> and \<^verbatim>\<open>text\<close>.
  The crawl fetcher of the second file of \<^verbatim>\<open>part_000\<close> returns the blocks
  \<^verbatim>\<open>## title (url)\<close>, line break, text, joined by blank lines, both when the response is
  an object with the array \<^verbatim>\<open>pages\<close> and when it is an array whose first element is such
  an object. The fetchers of \<^verbatim>\<open>src/index.js\<close> and of the first file of \<^verbatim>\<open>part_000\<close> return
  that text for the top-level shape only: on the nested shape \<^verbatim>\<open>res.data.pages\<close> is
  \<^verbatim>\<open>undefined\<close> and \<^verbatim>\<open>.map\<close> throws a TypeError. The empty page list gives the empty
  string.
\<close>

theorem crawl_text_by_revision:
  assumes "map_of kvs ''pages'' = Some (JArr ps)" and "map page_fields ps = map Some fs"
  shows "crawl_later (Resolved (JObj kvs)) url = (blocks_text fs, [CrawlPost (body_urls url)])
       \<and> crawl_later (Resolved (JArr (JObj kvs # rest))) url
           = (blocks_text fs, [CrawlPost (body_urls url)])
       \<and> fst (crawl_index (Resolved (JObj kvs)) url) = Inr (blocks_text fs)
       \<and> fst (crawl_early (Resolved (JObj kvs)) url) = Inr (blocks_text fs)
       \<and> fst (crawl_index (Resolved (JArr (JObj kvs # rest))) url) = Inl TypeError
       \<and> fst (crawl_early (Resolved (JArr (JObj kvs # rest))) url) = Inl TypeError
       \<and> blocks_text [] = []"
  using assms
  by (simp add: crawl_later_def crawl_later_try_def pick_top pick_nested and_then_def
        format_pages_fields crawl_index_def crawl_early_def pages_text_def)

text \<open>C2 as stated fails in \<^verbatim>\<open>src/index.js\<close>: a response whose pages are nested under the
  first element of a top-level array makes \<^verbatim>\<open>crawl\<close> throw.\<close>

theorem crawl_nested_counterexample:
  "fst (crawl_index
         (Resolved (JArr [JObj [(''pages'',
            JArr [JObj [(''title'', JStr ''Home''), (''url'', JStr ''https://acme.vc''),
                        (''text'', JStr ''hello'')]])]]))
         ''https://acme.vc'') = Inl TypeError"
  by (simp add: crawl_index_def pages_text_def and_then_def)

theorem crawl_text_witness:
  "crawl_later (Resolved (JArr [JObj [(''pages'',
      JArr [JObj [(''title'', JStr ''Home''), (''url'', JStr ''https://acme.vc''),
                  (''text'', JStr ''hello'')],
            JObj [(''title'', JStr ''About''), (''url'', JStr ''https://acme.vc/about''),
                  (''text'', JStr ''we invest'')]])]])) ''https://acme.vc''
   = (''## Home (https://acme.vc)\<newline>hello\<newline>\<newline>## About (https://acme.vc/about)\<newline>we invest'',
      [CrawlPost (body_urls ''https://acme.vc'')])"
  using crawl_text_by_revision [of
      "[(''pages'',
      JArr [JObj [(''title'', JStr ''Home''), (''url'', JStr ''https://acme.vc''),
                  (''text'', JStr ''hello'')],
            JObj [(''title'', JStr ''About''), (''url'', JStr ''https://acme.vc/about''),
                  (''text'', JStr ''we invest'')]])]"
      "[JObj [(''title'', JStr ''Home''), (''url'', JStr ''https://acme.vc''),
                  (''text'', JStr ''hello'')],
            JObj [(''title'', JStr ''About''), (''url'', JStr ''https://acme.vc/about''),
                  (''text'', JStr ''we invest'')]]"
      "[(''Home'', ''https://acme.vc'', ''hello''), (''About'', ''https://acme.vc/about'', ''we invest'')]"
      "''https://acme.vc''" "[]"]
  by simp

text \<open>
  C8. Every request that \<^verbatim>\<open>crawl\<close> posts carries \<^verbatim>\<open>maxPages\<close> 20, \<^verbatim>\<open>depth\<close> 2, \<^verbatim>\<open>crawlJs\<close>
  true and \<^verbatim>\<open>htmlOnly\<close> false, with the target as \<^verbatim>\<open>url\<close> in the first file of
  \<^verbatim>\<open>part_000\<close> and as the one-element list \<^verbatim>\<open>urls\<close> in the other two revisions; each
  call of \<^verbatim>\<open>crawl\<close> posts exactly one request, whatever the service answers.
\<close>

theorem crawl_request_parameters:
  "crawl_posts (snd (crawl_early res url))
     = [\<lparr>target = Url url, maxPages = 20, depth = 2, crawlJs = True, htmlOnly = False\<rparr>]
   \<and> crawl_posts (snd (crawl_index res url))
     = [\<lparr>target = Urls [url], maxPages = 20, depth = 2, crawlJs = True, htmlOnly = False\<rparr>]
   \<and> crawl_posts (snd (crawl_later res url))
     = [\<lparr>target = Urls [url], maxPages = 20, depth = 2, crawlJs = True, htmlOnly = False\<rparr>]"
  by (auto simp: crawl_early_def crawl_index_def crawl_later_def crawl_later_try_def
        body_url_def body_urls_def and_then_def
        split: reply.splits sum.splits prod.splits json.splits)

text \<open>
  C3, as amended. The crawl fetcher of the second file of \<^verbatim>\<open>part_000\<close> never throws: it
  returns a string whatever the service answers. When the transport fails, and whenever
  anything inside its \<^verbatim>\<open>try\<close> throws, the string is \<^verbatim>\<open>Crawl failed: exception thrown.\<close>;
  when the value picked for \<^verbatim>\<open>pages\<close> is not an array, the string is
  \<^verbatim>\<open>Crawl failed: no structured page content returned.\<close> The two strings differ.
\<close>

theorem crawl_later_sentinels:
  "fst (crawl_later Rejected url) = crawl_failed_exception
   \<and> (crawl_later_try res = Inl e \<longrightarrow> fst (crawl_later res url) = crawl_failed_exception)
   \<and> (pick_pages d = Inr pages \<longrightarrow> \<not> is_array pages \<longrightarrow>
        fst (crawl_later (Resolved d) url) = crawl_failed_format)
   \<and> crawl_failed_exception \<noteq> crawl_failed_format"
  by (cases pages)
     (simp_all add: crawl_later_def crawl_later_try_def and_then_def
        crawl_failed_exception_def crawl_failed_format_def)

text \<open>C3 as stated fails: a transport failure and a \<^verbatim>\<open>pages\<close> value that is a string give
  different strings, and a response without any \<^verbatim>\<open>pages\<close> gives the empty string, which
  is neither.\<close>

theorem crawl_later_sentinels_counterexample:
  "fst (crawl_later Rejected ''https://acme.vc'')
     \<noteq> fst (crawl_later (Resolved (JObj [(''pages'', JStr ''none'')])) ''https://acme.vc'')
   \<and> fst (crawl_later (Resolved (JObj [(''status'', JStr ''ok'')])) ''https://acme.vc'') = []
   \<and> [] \<noteq> crawl_failed_format"
  by (simp add: crawl_later_def crawl_later_try_def and_then_def pick_pages_def or_else_def
        opt_member_def opt_at0_def format_pages_def
        crawl_failed_exception_def crawl_failed_format_def)

theorem crawl_later_sentinels_witness:
  "crawl_later_try (Resolved JNull) = Inl TypeError
   \<and> fst (crawl_later (Resolved JNull) ''https://acme.vc'') = ''Crawl failed: exception thrown.''
   \<and> pick_pages (JObj [(''pages'', JStr ''none'')]) = Inr (JStr ''none'')
   \<and> \<not> is_array (JStr ''none'')
   \<and> fst (crawl_later (Resolved (JObj [(''pages'', JStr ''none'')])) ''https://acme.vc'')
       = ''Crawl failed: no structured page content returned.''"
  using crawl_later_sentinels [of "''https://acme.vc''" "Resolved JNull" TypeError
          "JObj [(''pages'', JStr ''none'')]" "JStr ''none''"]
  by (simp add: crawl_later_try_def pick_pages_def and_then_def or_else_def
        crawl_failed_exception_def crawl_failed_format_def)

section \<open>The prompt builder\<close>

lemma sub_here: "sublist xs (xs @ zs)"
  by (rule sublist_append_rightI)

lemma sub_skip: "sublist xs zs \<Longrightarrow> sublist xs (ys @ zs)"
  by (metis sublist_append_leftI sublist_order.order_trans)

text \<open>
  C5. For every trigger and every two crawled texts, the prompt contains as contiguous
  substrings the investor name, the investor site, the company URL, the serialized
  supplemental links, the context, the investor text right under the line
  \<^verbatim>\<open>## Investor Pages\<close> and the company text right under the line \<^verbatim>\<open>## Company Pages\<close>.
\<close>

theorem prompt_contains:
  "sublist (investor_name t) (build_prompt f t investorText companyText)
   \<and> sublist (investor_site t) (build_prompt f t investorText companyText)
   \<and> sublist (company_url t) (build_prompt f t investorText companyText)
   \<and> sublist (f (supplemental_links t)) (build_prompt f t investorText companyText)
   \<and> sublist (context_text t) (build_prompt f t investorText companyText)
   \<and> sublist (''## Investor Pages\<newline>'' @ investorText)
        (build_prompt f t investorText companyText)
   \<and> sublist (''## Company Pages\<newline>'' @ companyText)
        (build_prompt f t investorText companyText)"
proof -
  let ?p = "build_prompt f t investorText companyText"
  have 1: "sublist (investor_name t) ?p"
    unfolding build_prompt_def by (intro sub_skip sub_here)
  have 2: "sublist (investor_site t) ?p"
    unfolding build_prompt_def by (intro sub_skip sub_here)
  have 3: "sublist (company_url t) ?p"
    unfolding build_prompt_def by (intro sub_skip sub_here)
  have 4: "sublist (f (supplemental_links t)) ?p"
    unfolding build_prompt_def by (intro sub_skip sub_here)
  have 5: "sublist (context_text t) ?p"
    unfolding build_prompt_def by (intro sub_skip sub_here)
  have "\<exists>ss. ?p =
      (''\<newline>Investor Profile Input:\<newline>- PE/VC Firm Name: '' @ investor_name t @
       ''\<newline>- Website: '' @ investor_site t @
       ''\<newline>- Supplemental Links: '' @ f (supplemental_links t) @
       ''\<newline>\<newline>Target Company Input:\<newline>- Company Name: '' @ company_name t @
       ''\<newline>- Website: '' @ company_url t @
       ''\<newline>- Assessment Context: '' @ context_text t @
       ''\<newline>\<newline>Extracted Content:\<newline>'')
      @ (''## Investor Pages\<newline>'' @ investorText) @ ss"
    by (simp add: build_prompt_def)
  then have 6: "sublist (''## Investor Pages\<newline>'' @ investorText) ?p"
    unfolding sublist_def by blast
  have "\<exists>ps. ?p = ps @ (''## Company Pages\<newline>'' @ companyText) @ ''\<newline>''"
    unfolding build_prompt_def
    by (rule exI [of _ "''\<newline>Investor Profile Input:\<newline>- PE/VC Firm Name: '' @ investor_name t @
       ''\<newline>- Website: '' @ investor_site t @
       ''\<newline>- Supplemental Links: '' @ f (supplemental_links t) @
       ''\<newline>\<newline>Target Company Input:\<newline>- Company Name: '' @ company_name t @
       ''\<newline>- Website: '' @ company_url t @
       ''\<newline>- Assessment Context: '' @ context_text t @
       ''\<newline>\<newline>Extracted Content:\<newline>## Investor Pages\<newline>'' @ investorText @
       ''\<newline>\<newline>''"]) simp
  then have 7: "sublist (''## Company Pages\<newline>'' @ companyText) ?p"
    unfolding sublist_def by blast
  from 1 2 3 4 5 6 7 show ?thesis by blast
qed

section \<open>The polling loop\<close>

lemma poll_run_unfold:
  "poll_run retrieve tid rid k cs =
     (if retrieve k = Rejected then Some (Inl RequestFailed, cs @ [RunsRetrieve tid rid])
      else if retrieve k = Resolved ''completed''
      then Some (Inr (), cs @ [RunsRetrieve tid rid])
      else poll_run retrieve tid rid (Suc k) (cs @ [RunsRetrieve tid rid, Sleep 2000]))"
  by (subst poll_run.simps) (simp split: reply.splits)

lemma poll_run_completes:
  "retrieve (k + n) = Resolved ''completed'' \<Longrightarrow>
   \<exists>res. poll_run retrieve tid rid k cs = Some res"
proof (induction n arbitrary: k cs)
  case 0
  then have "retrieve k = Resolved ''completed''" by simp
  then show ?case by (subst poll_run_unfold) simp
next
  case (Suc n)
  from Suc.prems have "retrieve (Suc k + n) = Resolved ''completed''" by simp
  from Suc.IH [OF this]
  obtain res where
    "poll_run retrieve tid rid (Suc k) (cs @ [RunsRetrieve tid rid, Sleep 2000]) = Some res"
    by blast
  then show ?case by (subst poll_run_unfold) simp
qed

lemma poll_run_stops:
  assumes "poll_run retrieve tid rid k cs = Some res"
  shows "\<exists>j\<ge>k. retrieve j = Rejected \<or> retrieve j = Resolved ''completed''"
proof (rule poll_run.raw_induct
    [where P = "\<lambda>retrieve tid rid k cs res.
                  \<exists>j\<ge>k. retrieve j = Rejected \<or> retrieve j = Resolved ''completed''",
     OF _ assms])
  fix poll :: "(nat \<Rightarrow> string reply) \<Rightarrow> string \<Rightarrow> string \<Rightarrow> nat \<Rightarrow> call list
     \<Rightarrow> ((js_error + unit) \<times> call list) option"
  fix retrieve tid rid k cs res
  assume IH: "\<And>retrieve tid rid k cs res. poll retrieve tid rid k cs = Some res \<Longrightarrow>
     \<exists>j\<ge>k. retrieve j = Rejected \<or> retrieve j = Resolved ''completed''"
  assume step: "(case retrieve k of
        Resolved st \<Rightarrow>
          if st = ''completed'' then Some (Inr (), cs @ [RunsRetrieve tid rid])
          else poll retrieve tid rid (Suc k) (cs @ [RunsRetrieve tid rid, Sleep 2000])
      | Rejected \<Rightarrow> Some (Inl RequestFailed, cs @ [RunsRetrieve tid rid])) = Some res"
  show "\<exists>j\<ge>k. retrieve j = Rejected \<or> retrieve j = Resolved ''completed''"
  proof (cases "retrieve k = Rejected \<or> retrieve k = Resolved ''completed''")
    case True
    then show ?thesis by blast
  next
    case False
    then obtain st where st: "retrieve k = Resolved st" "st \<noteq> ''completed''"
      by (cases "retrieve k") auto
    with step
    have "poll retrieve tid rid (Suc k) (cs @ [RunsRetrieve tid rid, Sleep 2000]) = Some res"
      by simp
    from IH [OF this] obtain j where j: "j \<ge> Suc k"
      "retrieve j = Rejected \<or> retrieve j = Resolved ''completed''" by blast
    from j(1) have "j \<ge> k" by simp
    with j(2) show ?thesis by blast
  qed
qed

text \<open>
  C6. When every poll returns a status, the polling loop ends if and only if some poll
  returns \<^verbatim>\<open>completed\<close>; a run that stays in one other status (\<^verbatim>\<open>failed\<close>, \<^verbatim>\<open>cancelled\<close>,
  \<^verbatim>\<open>expired\<close>, any) makes the loop run forever.
\<close>

theorem polling_terminates_iff_completed:
  assumes "\<forall>k. retrieve k \<noteq> Rejected"
  shows "((\<exists>res. poll_run retrieve tid rid 0 cs = Some res)
            \<longleftrightarrow> (\<exists>k. retrieve k = Resolved ''completed''))
       \<and> ((\<forall>k. retrieve k = Resolved st) \<and> st \<noteq> ''completed''
            \<longrightarrow> poll_run retrieve tid rid 0 cs = None)"
proof -
  have stops: "\<exists>k. retrieve k = Resolved ''completed''"
    if "poll_run retrieve tid rid 0 cs = Some res" for res
    using poll_run_stops [OF that] assms by blast
  have completes: "\<exists>res. poll_run retrieve tid rid 0 cs = Some res"
    if "retrieve k = Resolved ''completed''" for k
    using poll_run_completes [of retrieve 0 k tid rid cs] that by simp
  have never: "poll_run retrieve tid rid 0 cs = None"
    if all: "\<forall>k. retrieve k = Resolved st" and ne: "st \<noteq> ''completed''"
  proof (cases "poll_run retrieve tid rid 0 cs")
    case None
    then show ?thesis .
  next
    case (Some res)
    from stops [OF Some] obtain k where "retrieve k = Resolved ''completed''" ..
    moreover from all have "retrieve k = Resolved st" ..
    ultimately have "st = ''completed''" by simp
    with ne show ?thesis by contradiction
  qed
  from stops completes never show ?thesis by blast
qed

theorem polling_terminates_witness:
  "(\<forall>k::nat. (if k < 2 then Resolved ''in_progress'' else Resolved ''completed'') \<noteq> Rejected)
   \<and> (\<exists>res. poll_run (\<lambda>k. if k < 2 then Resolved ''in_progress'' else Resolved ''completed'')
        ''thread_1'' ''run_1'' 0 [] = Some res)
   \<and> poll_run (\<lambda>k. Resolved ''failed'') ''thread_1'' ''run_1'' 0 [] = None"
proof -
  let ?r = "\<lambda>k::nat. if k < 2 then Resolved ''in_progress'' else Resolved ''completed''"
  let ?f = "\<lambda>k::nat. Resolved ''failed''"
  have a: "\<forall>k. ?r k \<noteq> Rejected" by simp
  have b: "\<forall>k. ?f k \<noteq> Rejected" by simp
  have b': "(\<forall>k. ?f k = Resolved ''failed'') \<and> ''failed'' \<noteq> ''completed''" by simp
  from polling_terminates_iff_completed [OF b, of "''thread_1''" "''run_1''" "[]" "''failed''"]
  have "(\<forall>k. ?f k = Resolved ''failed'') \<and> ''failed'' \<noteq> ''completed''
        \<longrightarrow> poll_run ?f ''thread_1'' ''run_1'' 0 [] = None"
    by (rule conjunct2)
  with b' have c: "poll_run ?f ''thread_1'' ''run_1'' 0 [] = None" by (rule rev_mp)
  have e: "\<exists>k. ?r k = Resolved ''completed''" by (rule exI [of _ 2]) simp
  from polling_terminates_iff_completed [OF a, of "''thread_1''" "''run_1''" "[]" "''failed''"]
  have "(\<exists>res. poll_run ?r ''thread_1'' ''run_1'' 0 [] = Some res)
        \<longleftrightarrow> (\<exists>k. ?r k = Resolved ''completed'')"
    by (rule conjunct1)
  with e have d: "\<exists>res. poll_run ?r ''thread_1'' ''run_1'' 0 [] = Some res"
    by (rule iffD2 [rotated])
  from a c d show ?thesis by (intro conjI)
qed

section \<open>One cycle: what is written, and when\<close>

lemma crawl_no_writes:
  "filter is_store_write (snd (crawl_early res url)) = []"
  "filter is_store_write (snd (crawl_index res url)) = []"
  "filter is_store_write (snd (crawl_later res url)) = []"
  by (auto simp: crawl_early_def crawl_index_def crawl_later_def crawl_later_try_def
        and_then_def split: reply.splits sum.splits prod.splits json.splits)

lemma poll_run_no_writes:
  assumes "poll_run retrieve tid rid k cs = Some res"
  shows "filter is_store_write (snd res) = filter is_store_write cs"
proof (rule poll_run.raw_induct
    [where P = "\<lambda>retrieve tid rid k cs res.
                  filter is_store_write (snd res) = filter is_store_write cs",
     OF _ assms])
  fix poll :: "(nat \<Rightarrow> string reply) \<Rightarrow> string \<Rightarrow> string \<Rightarrow> nat \<Rightarrow> call list
     \<Rightarrow> ((js_error + unit) \<times> call list) option"
  fix retrieve tid rid k cs res
  assume IH: "\<And>retrieve tid rid k cs res. poll retrieve tid rid k cs = Some res \<Longrightarrow>
     filter is_store_write (snd res) = filter is_store_write cs"
  assume step: "(case retrieve k of
        Resolved st \<Rightarrow>
          if st = ''completed'' then Some (Inr (), cs @ [RunsRetrieve tid rid])
          else poll retrieve tid rid (Suc k) (cs @ [RunsRetrieve tid rid, Sleep 2000])
      | Rejected \<Rightarrow> Some (Inl RequestFailed, cs @ [RunsRetrieve tid rid])) = Some res"
  show "filter is_store_write (snd res) = filter is_store_write cs"
  proof (cases "retrieve k = Rejected \<or> retrieve k = Resolved ''completed''")
    case True
    with step show ?thesis by auto
  next
    case False
    then obtain st where st: "retrieve k = Resolved st" "st \<noteq> ''completed''"
      by (cases "retrieve k") auto
    with step
    have "poll retrieve tid rid (Suc k) (cs @ [RunsRetrieve tid rid, Sleep 2000]) = Some res"
      by simp
    from IH [OF this] show ?thesis by simp
  qed
qed

lemma ask_assistant_no_writes:
  assumes "ask_assistant env prompt = Some (r, cs)"
  shows "filter is_store_write cs = []"
proof -
  have poll: "filter is_store_write cs' = []"
    if "poll_run (runs_retrieve env) tid rid 0
          [ThreadsCreate, MessagesCreate tid prompt, RunsCreate tid] = Some (x, cs')"
    for tid rid x cs'
    using poll_run_no_writes [OF that] by simp
  from assms show ?thesis
    unfolding ask_assistant_def
    by (auto split: reply.splits option.splits prod.splits sum.splits dest: poll)
qed

lemma crawl_pair_no_writes:
  "crawl_early res url = (x, c) \<Longrightarrow> filter is_store_write c = []"
  "crawl_index res url = (x, c) \<Longrightarrow> filter is_store_write c = []"
  "crawl_later res url = (y, c) \<Longrightarrow> filter is_store_write c = []"
  using crawl_no_writes [of res url] by simp_all

lemma process_index_shape:
  assumes "process_index env t s = Some (out, cs, s')"
  shows "(filter is_store_write cs = [] \<and> s' = s)
       \<or> (\<exists>report r c4. persist_index env t report s = (r, c4, s')
            \<and> filter is_store_write cs = filter is_store_write c4 \<and> out = settle r)"
  using assms unfolding process_index_def settle_def
  by (auto split: prod.splits sum.splits option.splits
        dest!: crawl_pair_no_writes ask_assistant_no_writes) blast+

lemma process_early_shape:
  assumes "process_early env t s = Some (out, cs, s')"
  shows "(filter is_store_write cs = [] \<and> s' = s)
       \<or> (\<exists>report r c4. persist_early env t report s = (r, c4, s')
            \<and> filter is_store_write cs = filter is_store_write c4 \<and> out = settle r)"
  using assms unfolding process_early_def settle_def
  by (auto split: prod.splits sum.splits option.splits
        dest!: crawl_pair_no_writes ask_assistant_no_writes) blast+

lemma process_later_shape:
  assumes "process_later env t s = Some (out, cs, s')"
  shows "(filter is_store_write cs = [] \<and> s' = s)
       \<or> (\<exists>report r c4. persist_later env t report s = (r, c4, s')
            \<and> filter is_store_write cs = filter is_store_write c4 \<and> out = Returned)"
  using assms unfolding process_later_def
  by (auto split: prod.splits sum.splits option.splits
        dest!: crawl_pair_no_writes ask_assistant_no_writes) blast+

lemma run_early_shape:
  assumes "run_early env s = Some (out, cs, s')"
  shows "(filter is_store_write cs = [] \<and> s' = s)
       \<or> (\<exists>res t rest report r c4. select_reply env = Resolved res \<and> data res = Some (t # rest)
            \<and> persist_early env t report s = (r, c4, s')
            \<and> filter is_store_write cs = filter is_store_write c4 \<and> out = settle r)"
proof (cases "\<exists>res t rest. select_reply env = Resolved res \<and> data res = Some (t # rest)")
  case False
  with assms show ?thesis
    unfolding run_early_def by (auto split: reply.splits option.splits list.splits)
next
  case True
  then obtain res t rest where sel: "select_reply env = Resolved res" "data res = Some (t # rest)"
    by blast
  with assms obtain cs0 where p: "process_early env t s = Some (out, cs0, s')"
    and cs: "cs = SelectQueued # cs0"
    unfolding run_early_def by (auto split: if_splits)
  from process_early_shape [OF p] cs sel show ?thesis by auto
qed

lemma run_index_shape:
  assumes "run_index env s = Some (out, cs, s')"
  shows "(filter is_store_write cs = [] \<and> s' = s)
       \<or> (\<exists>res t rest report r c4. select_reply env = Resolved res \<and> data res = Some (t # rest)
            \<and> persist_index env t report s = (r, c4, s')
            \<and> filter is_store_write cs = filter is_store_write c4 \<and> out = settle r)"
proof (cases "\<exists>res t rest. select_reply env = Resolved res \<and> error res = None
                 \<and> data res = Some (t # rest)")
  case False
  with assms show ?thesis
    unfolding run_index_def by (auto split: reply.splits option.splits list.splits if_splits)
next
  case True
  then obtain res t rest where sel: "select_reply env = Resolved res" "error res = None"
    "data res = Some (t # rest)"
    by blast
  with assms obtain cs0 where p: "process_index env t s = Some (out, cs0, s')"
    and cs: "cs = SelectQueued # ConsoleLog (ProcessingTrigger (trigger_id t)) # cs0"
    unfolding run_index_def by (auto split: if_splits)
  from process_index_shape [OF p] cs sel show ?thesis by auto
qed

lemma run_later_shape:
  assumes "run_later env s = Some (out, cs, s')"
  shows "(filter is_store_write cs = [] \<and> s' = s)
       \<or> (\<exists>res t rest report r c4. select_reply env = Resolved res \<and> data res = Some (t # rest)
            \<and> persist_later env t report s = (r, c4, s')
            \<and> filter is_store_write cs = filter is_store_write c4 \<and> out = Returned)"
proof (cases "\<exists>res t rest. select_reply env = Resolved res \<and> error res = None
                 \<and> data res = Some (t # rest)")
  case False
  with assms show ?thesis
    unfolding run_later_def by (auto split: reply.splits option.splits list.splits if_splits)
next
  case True
  then obtain res t rest where sel: "select_reply env = Resolved res" "error res = None"
    "data res = Some (t # rest)"
    by blast
  with assms obtain cs0 where p: "process_later env t s = Some (out, cs0, s')"
    and cs: "cs = SelectQueued # ConsoleLog (ProcessingTrigger (trigger_id t)) # cs0"
    unfolding run_later_def by (auto split: if_splits)
  from process_later_shape [OF p] cs sel show ?thesis by auto
qed

lemma write_in_same_filter:
  assumes "filter is_store_write cs = filter is_store_write c4" and "is_store_write c"
    and "c \<in> set cs"
  shows "c \<in> set c4"
proof -
  from assms(2,3) have "c \<in> set (filter is_store_write cs)" by simp
  with assms(1) have "c \<in> set (filter is_store_write c4)" by simp
  then show ?thesis by simp
qed

lemma no_write_in_empty_filter:
  assumes "filter is_store_write cs = []" and "is_store_write c"
  shows "c \<notin> set cs"
  using assms by (auto simp: filter_empty_conv)

lemma persist_audit:
  "persist audit_row env t report s = (r, c4, s') \<Longrightarrow> InsertAuditLog l \<in> set c4 \<Longrightarrow>
   l = audit_row t"
  by (auto simp: persist_def Let_def split: if_splits)

lemma persist_early_audit:
  "persist_early env t report s = (r, c4, s') \<Longrightarrow> InsertAuditLog l \<in> set c4 \<Longrightarrow>
   l = audit_row_stored t"
  by (auto simp: persist_early_def Let_def split: if_splits)

lemma poll_run_success:
  "retrieve (k + n) = Resolved ''completed'' \<Longrightarrow> \<forall>j<n. retrieve (k + j) \<noteq> Rejected \<Longrightarrow>
   \<exists>cs'. poll_run retrieve tid rid k cs = Some (Inr (), cs')"
proof (induction n arbitrary: k cs)
  case 0
  then have "retrieve k = Resolved ''completed''" by simp
  then show ?case by (subst poll_run_unfold) simp
next
  case (Suc n)
  from Suc.prems(2) have nr: "retrieve k \<noteq> Rejected" by force
  have rest: "\<forall>j<n. retrieve (Suc k + j) \<noteq> Rejected"
  proof (intro allI impI)
    fix j assume "j < n"
    then have "Suc j < Suc n" by simp
    with Suc.prems(2) have "retrieve (k + Suc j) \<noteq> Rejected" by blast
    then show "retrieve (Suc k + j) \<noteq> Rejected" by simp
  qed
  from Suc.prems(1) have "retrieve (Suc k + n) = Resolved ''completed''" by simp
  from Suc.IH [OF this rest]
  obtain cs' where
    "poll_run retrieve tid rid (Suc k) (cs @ [RunsRetrieve tid rid, Sleep 2000])
       = Some (Inr (), cs')"
    by blast
  with nr show ?case by (subst poll_run_unfold) simp
qed

lemma ask_assistant_success:
  assumes "threads_create env = Resolved tid" and "messages_create env = Resolved u"
    and "runs_create env = Resolved rid"
    and "runs_retrieve env n = Resolved ''completed''"
    and "\<forall>j<n. runs_retrieve env j \<noteq> Rejected"
    and "messages_list env = Resolved m"
  shows "\<exists>c3. ask_assistant env prompt = Some (first_message_text m, c3)"
proof -
  from poll_run_success [of "runs_retrieve env" 0 n tid rid
      "[ThreadsCreate, MessagesCreate tid prompt, RunsCreate tid]"] assms(4,5)
  obtain cs' where "poll_run (runs_retrieve env) tid rid 0
      [ThreadsCreate, MessagesCreate tid prompt, RunsCreate tid] = Some (Inr (), cs')"
    by auto
  with assms(1,2,3,6) show ?thesis by (simp add: ask_assistant_def)
qed

lemma pages_text_later:
  assumes "pages_text d = Inr txt"
  shows "crawl_later (Resolved d) url = (txt, [CrawlPost (body_urls url)])"
proof -
  from assms obtain ps where ps: "member (Some d) ''pages'' = Inr (Some (JArr ps))"
    and f: "format_pages ps = Inr txt"
    by (auto simp: pages_text_def and_then_def split: sum.splits option.splits json.splits)
  then have "pick_pages d = Inr (JArr ps)"
    by (simp add: pick_pages_def and_then_def or_else_def)
  with f show ?thesis by (simp add: crawl_later_def crawl_later_try_def and_then_def)
qed

lemma process_index_success:
  assumes "crawl_reply env 0 (investor_site t) = Resolved d0" and "pages_text d0 = Inr investorText"
    and "crawl_reply env 1 (company_url t) = Resolved d1" and "pages_text d1 = Inr companyText"
    and "ask_assistant env (build_prompt (json_stringify env) t investorText companyText)
           = Some (Inr report, c3)"
    and "persist_index env t report s = (r, c4, s')"
  shows "\<exists>pre. filter is_store_write pre = []
           \<and> process_index env t s = Some (settle r, pre @ c4, s')"
proof -
  let ?pre = "[CrawlPost (body_urls (investor_site t)), CrawlPost (body_urls (company_url t))] @ c3"
  from ask_assistant_no_writes [OF assms(5)] have "filter is_store_write ?pre = []" by simp
  moreover from assms have "process_index env t s = Some (settle r, ?pre @ c4, s')"
    by (simp add: process_index_def crawl_index_def settle_def split: sum.splits)
  ultimately show ?thesis by blast
qed

lemma process_early_success:
  assumes "crawl_reply env 0 (investor_site t) = Resolved d0" and "pages_text d0 = Inr investorText"
    and "crawl_reply env 1 (company_url t) = Resolved d1" and "pages_text d1 = Inr companyText"
    and "ask_assistant env (build_prompt (json_stringify env) t investorText companyText)
           = Some (Inr report, c3)"
    and "persist_early env t report s = (r, c4, s')"
  shows "\<exists>pre. filter is_store_write pre = []
           \<and> process_early env t s = Some (settle r, pre @ c4, s')"
proof -
  let ?pre = "[CrawlPost (body_url (investor_site t)), CrawlPost (body_url (company_url t))] @ c3"
  from ask_assistant_no_writes [OF assms(5)] have "filter is_store_write ?pre = []" by simp
  moreover from assms have "process_early env t s = Some (settle r, ?pre @ c4, s')"
    by (simp add: process_early_def crawl_early_def settle_def split: sum.splits)
  ultimately show ?thesis by blast
qed

lemma process_later_success:
  assumes "crawl_reply env 0 (investor_site t) = Resolved d0" and "pages_text d0 = Inr investorText"
    and "crawl_reply env 1 (company_url t) = Resolved d1" and "pages_text d1 = Inr companyText"
    and "ask_assistant env (build_prompt (json_stringify env) t investorText companyText)
           = Some (Inr report, c3)"
    and "persist_later env t report s = (r, c4, s')"
  shows "\<exists>pre post. filter is_store_write pre = [] \<and> filter is_store_write post = []
           \<and> process_later env t s = Some (Returned, pre @ c4 @ post, s')"
proof -
  let ?pre = "[CrawlPost (body_urls (investor_site t)), CrawlPost (body_urls (company_url t))] @ c3"
  let ?post = "case r of Inl e \<Rightarrow> [ConsoleError WriteFailed] | Inr u \<Rightarrow> []"
  from ask_assistant_no_writes [OF assms(5)] have "filter is_store_write ?pre = []" by simp
  moreover have "filter is_store_write ?post = []" by (simp split: sum.splits)
  moreover from assms have "process_later env t s = Some (Returned, ?pre @ c4 @ ?post, s')"
    by (simp add: process_later_def pages_text_later split: sum.splits)
  ultimately show ?thesis by blast
qed

lemma cycle_reaches_persist:
  assumes sel: "select_reply env = Resolved res" "error res = None" "data res = Some (t # rest)"
    and crawl0: "crawl_reply env 0 (investor_site t) = Resolved d0" "pages_text d0 = Inr investorText"
    and crawl1: "crawl_reply env 1 (company_url t) = Resolved d1" "pages_text d1 = Inr companyText"
    and asst: "threads_create env = Resolved tid" "messages_create env = Resolved u"
      "runs_create env = Resolved rid"
    and poll: "runs_retrieve env n = Resolved ''completed''" "\<forall>j<n. runs_retrieve env j \<noteq> Rejected"
    and msgs: "messages_list env = Resolved m" "first_message_text m = Inr report"
  shows "persist_early env t report s = (r, c4, s') \<Longrightarrow>
           \<exists>pre. filter is_store_write pre = []
             \<and> run_early env s = Some (settle r, pre @ c4, s')"
    and "persist_index env t report s = (r, c4, s') \<Longrightarrow>
           \<exists>pre. filter is_store_write pre = []
             \<and> run_index env s = Some (settle r, pre @ c4, s')"
    and "persist_later env t report s = (r, c4, s') \<Longrightarrow>
           \<exists>pre post. filter is_store_write pre = [] \<and> filter is_store_write post = []
             \<and> run_later env s = Some (Returned, pre @ c4 @ post, s')"
proof -
  from ask_assistant_success [OF asst poll msgs(1)] msgs(2)
  obtain c3 where a: "ask_assistant env (build_prompt (json_stringify env) t investorText companyText)
           = Some (Inr report, c3)"
    by metis
  {
    assume p: "persist_early env t report s = (r, c4, s')"
    from process_early_success [OF crawl0 crawl1 a p]
    obtain pre where pre: "filter is_store_write pre = []"
      "process_early env t s = Some (settle r, pre @ c4, s')" by blast
    from pre sel have "filter is_store_write (SelectQueued # pre) = []
        \<and> run_early env s = Some (settle r, (SelectQueued # pre) @ c4, s')"
      by (simp add: run_early_def)
    then show "\<exists>pre. filter is_store_write pre = []
             \<and> run_early env s = Some (settle r, pre @ c4, s')" by blast
  next
    assume p: "persist_index env t report s = (r, c4, s')"
    from process_index_success [OF crawl0 crawl1 a p]
    obtain pre where pre: "filter is_store_write pre = []"
      "process_index env t s = Some (settle r, pre @ c4, s')" by blast
    let ?pre = "SelectQueued # ConsoleLog (ProcessingTrigger (trigger_id t)) # pre"
    from pre sel have "filter is_store_write ?pre = []
        \<and> run_index env s = Some (settle r, ?pre @ c4, s')"
      by (simp add: run_index_def)
    then show "\<exists>pre. filter is_store_write pre = []
             \<and> run_index env s = Some (settle r, pre @ c4, s')" by blast
  next
    assume p: "persist_later env t report s = (r, c4, s')"
    from process_later_success [OF crawl0 crawl1 a p]
    obtain pre post where pre: "filter is_store_write pre = []" "filter is_store_write post = []"
      "process_later env t s = Some (Returned, pre @ c4 @ post, s')" by blast
    let ?pre = "SelectQueued # ConsoleLog (ProcessingTrigger (trigger_id t)) # pre"
    from pre sel have "filter is_store_write ?pre = [] \<and> filter is_store_write post = []
        \<and> run_later env s = Some (Returned, ?pre @ c4 @ post, s')"
      by (simp add: run_later_def)
    then show "\<exists>pre post. filter is_store_write pre = [] \<and> filter is_store_write post = []
             \<and> run_later env s = Some (Returned, pre @ c4 @ post, s')" by blast
  }
qed

lemma acme_messages_text: "first_message_text acme_messages = Inr (Some (JStr ''report''))"
  by (simp add: first_message_text_def acme_messages_def and_then_def)

lemma acme_pages_text:
  "pages_text (JObj [(''pages'', JArr [home_page url])])
     = Inr (''## Home ('' @ url @ '')\<newline>...'')"
  by (simp add: pages_text_def and_then_def format_pages_def format_page_def home_page_def
        interpolate_def)

lemma acme_cycle:
  fixes a b c :: "string option reply"
  defines "e \<equiv> acme_env\<lparr>insert_assessment_reply := a, insert_audit_reply := b,
                          update_status_reply := c\<rparr>"
  shows "persist_early e acme_trigger (Some (JStr ''report'')) s = (r, c4, s') \<Longrightarrow>
           \<exists>pre. filter is_store_write pre = []
             \<and> run_early e s = Some (settle r, pre @ c4, s')"
    and "persist_index e acme_trigger (Some (JStr ''report'')) s = (r, c4, s') \<Longrightarrow>
           \<exists>pre. filter is_store_write pre = []
             \<and> run_index e s = Some (settle r, pre @ c4, s')"
    and "persist_later e acme_trigger (Some (JStr ''report'')) s = (r, c4, s') \<Longrightarrow>
           \<exists>pre post. filter is_store_write pre = [] \<and> filter is_store_write post = []
             \<and> run_later e s = Some (Returned, pre @ c4 @ post, s')"
proof -
  have sel: "select_reply e = Resolved (select_queued [acme_trigger])"
    "error (select_queued [acme_trigger]) = None"
    "data (select_queued [acme_trigger]) = Some (acme_trigger # [])"
    by (simp_all add: e_def acme_env_def select_queued_def acme_trigger_def)
  have crawl0: "crawl_reply e 0 (investor_site acme_trigger)
       = Resolved (JObj [(''pages'', JArr [home_page (investor_site acme_trigger)])])"
    and crawl1: "crawl_reply e 1 (company_url acme_trigger)
       = Resolved (JObj [(''pages'', JArr [home_page (company_url acme_trigger)])])"
    by (simp_all add: e_def acme_env_def)
  have asst: "threads_create e = Resolved ''thread_1''" "messages_create e = Resolved ()"
    "runs_create e = Resolved ''run_1''"
    by (simp_all add: e_def acme_env_def)
  have poll: "runs_retrieve e 2 = Resolved ''completed''" "\<forall>j<2. runs_retrieve e j \<noteq> Rejected"
    by (simp_all add: e_def acme_env_def)
  have msgs: "messages_list e = Resolved acme_messages"
    by (simp add: e_def acme_env_def)
  note reach = cycle_reaches_persist [OF sel crawl0 acme_pages_text crawl1 acme_pages_text
      asst poll msgs acme_messages_text]
  show "persist_early e acme_trigger (Some (JStr ''report'')) s = (r, c4, s') \<Longrightarrow>
           \<exists>pre. filter is_store_write pre = []
             \<and> run_early e s = Some (settle r, pre @ c4, s')"
    by (rule reach(1))
  show "persist_index e acme_trigger (Some (JStr ''report'')) s = (r, c4, s') \<Longrightarrow>
           \<exists>pre. filter is_store_write pre = []
             \<and> run_index e s = Some (settle r, pre @ c4, s')"
    by (rule reach(2))
  show "persist_later e acme_trigger (Some (JStr ''report'')) s = (r, c4, s') \<Longrightarrow>
           \<exists>pre post. filter is_store_write pre = [] \<and> filter is_store_write post = []
             \<and> run_later e s = Some (Returned, pre @ c4 @ post, s')"
    by (rule reach(3))
qed

lemma persist_all_written:
  assumes "insert_assessment_reply env = Resolved None"
    and "insert_audit_reply env = Resolved None"
    and "update_status_reply env = Resolved None"
  shows "persist audit_row env t report s =
     (Inr (),
      [InsertAssessment (assessment_row t report), InsertAuditLog (audit_row t),
       UpdateStatusComplete (trigger_id t), ConsoleLog (AssessmentDone (company_name t))],
      s\<lparr>assessments := assessments s @ [assessment_row t report],
        audit_logs := audit_logs s @ [audit_row t],
        triggers := map (\<lambda>r. if trigger_id r = trigger_id t then r\<lparr>status := ''complete''\<rparr> else r)
                      (triggers s)\<rparr>)"
  using assms
  by (simp add: persist_def Let_def insert_assessment_def insert_audit_log_def
        update_status_complete_def)

lemma persist_early_all_written:
  assumes "insert_assessment_reply env = Resolved None"
    and "insert_audit_reply env = Resolved None"
    and "update_status_reply env = Resolved None"
  shows "persist_early env t report s =
     (Inr (),
      [InsertAssessment (assessment_row t report), UpdateStatusComplete (trigger_id t),
       InsertAuditLog (audit_row_stored t)],
      s\<lparr>assessments := assessments s @ [assessment_row t report],
        audit_logs := audit_logs s @ [audit_row_stored t],
        triggers := map (\<lambda>r. if trigger_id r = trigger_id t then r\<lparr>status := ''complete''\<rparr> else r)
                      (triggers s)\<rparr>)"
  using assms
  by (simp add: persist_early_def Let_def insert_assessment_def insert_audit_log_def
        update_status_complete_def)

lemma acme_env_plain:
  "acme_env\<lparr>insert_assessment_reply := Resolved None, insert_audit_reply := Resolved None,
            update_status_reply := Resolved None\<rparr> = acme_env"
  by (simp add: acme_env_def)

lemma acme_env_audit:
  "acme_env\<lparr>insert_assessment_reply := Resolved None, insert_audit_reply := b,
            update_status_reply := Resolved None\<rparr> = acme_env\<lparr>insert_audit_reply := b\<rparr>"
  by (simp add: acme_env_def)

lemma persist_audit_refused:
  assumes "insert_assessment_reply env = Resolved None"
    and "insert_audit_reply env = Resolved (Some msg)"
    and "update_status_reply env = Resolved None"
  shows "persist audit_row env t report s =
     (Inr (),
      [InsertAssessment (assessment_row t report), InsertAuditLog (audit_row t),
       UpdateStatusComplete (trigger_id t), ConsoleLog (AssessmentDone (company_name t))],
      s\<lparr>assessments := assessments s @ [assessment_row t report],
        triggers := map (\<lambda>r. if trigger_id r = trigger_id t then r\<lparr>status := ''complete''\<rparr> else r)
                      (triggers s)\<rparr>)"
  using assms
  by (simp add: persist_def Let_def insert_assessment_def insert_audit_log_def
        update_status_complete_def)

text \<open>
  C4. When the read of the queued triggers succeeds and returns none, the cycle of each
  revision returns having made the read and nothing else: no crawl request, no call of
  the assistant, no write, and the store's tables are what they were.
\<close>

theorem no_trigger_no_effect:
  assumes "select_reply env = Resolved res" and "error res = None" and "data res = Some []"
  shows "run_early env s = Some (Returned, [SelectQueued], s)
       \<and> run_index env s = Some (Returned, [SelectQueued], s)
       \<and> run_later env s = Some (Returned, [SelectQueued], s)
       \<and> \<not> is_crawl SelectQueued \<and> \<not> is_assistant_call SelectQueued
       \<and> \<not> is_store_write SelectQueued"
  using assms by (simp add: run_early_def run_index_def run_later_def)

theorem no_trigger_witness:
  "select_reply (acme_env\<lparr>select_reply := Resolved (select_queued [])\<rparr>)
     = Resolved (select_queued [])
   \<and> error (select_queued []) = None \<and> data (select_queued []) = Some []
   \<and> run_early (acme_env\<lparr>select_reply := Resolved (select_queued [])\<rparr>)
        \<lparr>triggers = [], assessments = [], audit_logs = []\<rparr>
      = Some (Returned, [SelectQueued], \<lparr>triggers = [], assessments = [], audit_logs = []\<rparr>)
   \<and> run_index (acme_env\<lparr>select_reply := Resolved (select_queued [])\<rparr>)
        \<lparr>triggers = [], assessments = [], audit_logs = []\<rparr>
      = Some (Returned, [SelectQueued], \<lparr>triggers = [], assessments = [], audit_logs = []\<rparr>)
   \<and> run_later (acme_env\<lparr>select_reply := Resolved (select_queued [])\<rparr>)
        \<lparr>triggers = [], assessments = [], audit_logs = []\<rparr>
      = Some (Returned, [SelectQueued], \<lparr>triggers = [], assessments = [], audit_logs = []\<rparr>)"
proof -
  have 1: "select_reply (acme_env\<lparr>select_reply := Resolved (select_queued [])\<rparr>)
     = Resolved (select_queued [])" by simp
  have 2: "error (select_queued []) = None" by (simp add: select_queued_def)
  have 3: "data (select_queued []) = Some []" by (simp add: select_queued_def)
  from no_trigger_no_effect [OF 1 2 3, of "\<lparr>triggers = [], assessments = [], audit_logs = []\<rparr>"]
    1 2 3
  show ?thesis by blast
qed

text \<open>
  C9. When the read of the queued triggers resolves with an \<^verbatim>\<open>error\<close>, the cycle of
  \<^verbatim>\<open>src/index.js\<close> and of the second file of \<^verbatim>\<open>part_000\<close> logs the error and returns:
  after the read there is the log line and nothing else, and the store's tables are
  what they were.
\<close>

theorem read_error_aborts:
  assumes "select_reply env = Resolved res" and "error res \<noteq> None"
  shows "run_index env s = Some (Returned, [SelectQueued, ConsoleError QueryError], s)
       \<and> run_later env s = Some (Returned, [SelectQueued, ConsoleError QueryError], s)
       \<and> filter (\<lambda>c. is_crawl c \<or> is_assistant_call c \<or> is_store_write c)
            [SelectQueued, ConsoleError QueryError] = []"
  using assms by (auto simp: run_index_def run_later_def)

theorem read_error_witness:
  "select_reply
     (acme_env\<lparr>select_reply := Resolved \<lparr>data = None, error = Some ''connection refused''\<rparr>\<rparr>)
     = Resolved \<lparr>data = None, error = Some ''connection refused''\<rparr>
   \<and> error \<lparr>data = None, error = Some ''connection refused''\<rparr> \<noteq> None
   \<and> run_index
       (acme_env\<lparr>select_reply := Resolved \<lparr>data = None, error = Some ''connection refused''\<rparr>\<rparr>)
       acme_store
      = Some (Returned, [SelectQueued, ConsoleError QueryError], acme_store)
   \<and> run_later
       (acme_env\<lparr>select_reply := Resolved \<lparr>data = None, error = Some ''connection refused''\<rparr>\<rparr>)
       acme_store
      = Some (Returned, [SelectQueued, ConsoleError QueryError], acme_store)"
proof -
  let ?r = "\<lparr>data = None, error = Some ''connection refused''\<rparr>"
  have 1: "select_reply (acme_env\<lparr>select_reply := Resolved ?r\<rparr>) = Resolved ?r" by simp
  have 2: "error ?r \<noteq> None" by simp
  from read_error_aborts [OF 1 2, of acme_store] 1 2 show ?thesis by blast
qed

text \<open>
  C1, as amended. When the read returns exactly one queued trigger, both crawls return
  pages, the assistant's run reaches \<^verbatim>\<open>completed\<close>, the answer has a first message text
  and the three writes resolve without error, the cycle issues exactly three writes and
  each takes effect once: in \<^verbatim>\<open>src/index.js\<close> and in the second file of \<^verbatim>\<open>part_000\<close> in
  the order report insert, audit insert, status update; in the first file of
  \<^verbatim>\<open>part_000\<close> in the order report insert, status update, audit insert. In every
  revision the store ends with one more report row, one more audit row and the
  trigger's status \<^verbatim>\<open>complete\<close>.
\<close>

theorem writes_once_in_order:
  assumes sel: "select_reply env = Resolved res" "error res = None" "data res = Some [t]"
    and crawl0: "crawl_reply env 0 (investor_site t) = Resolved d0" "pages_text d0 = Inr investorText"
    and crawl1: "crawl_reply env 1 (company_url t) = Resolved d1" "pages_text d1 = Inr companyText"
    and asst: "threads_create env = Resolved tid" "messages_create env = Resolved u"
      "runs_create env = Resolved rid"
    and poll: "runs_retrieve env n = Resolved ''completed''" "\<forall>j<n. runs_retrieve env j \<noteq> Rejected"
    and msgs: "messages_list env = Resolved m" "first_message_text m = Inr report"
    and writes: "insert_assessment_reply env = Resolved None"
      "insert_audit_reply env = Resolved None" "update_status_reply env = Resolved None"
  shows "store_writes (run_index env s)
           = [InsertAssessment (assessment_row t report), InsertAuditLog (audit_row_stored t),
              UpdateStatusComplete (trigger_id t)]
       \<and> store_writes (run_later env s)
           = [InsertAssessment (assessment_row t report), InsertAuditLog (audit_row_later t),
              UpdateStatusComplete (trigger_id t)]
       \<and> store_writes (run_early env s)
           = [InsertAssessment (assessment_row t report), UpdateStatusComplete (trigger_id t),
              InsertAuditLog (audit_row_stored t)]
       \<and> final_store (run_index env s)
           = Some (s\<lparr>assessments := assessments s @ [assessment_row t report],
                    audit_logs := audit_logs s @ [audit_row_stored t],
                    triggers := map (\<lambda>r. if trigger_id r = trigger_id t
                                          then r\<lparr>status := ''complete''\<rparr> else r) (triggers s)\<rparr>)
       \<and> final_store (run_later env s)
           = Some (s\<lparr>assessments := assessments s @ [assessment_row t report],
                    audit_logs := audit_logs s @ [audit_row_later t],
                    triggers := map (\<lambda>r. if trigger_id r = trigger_id t
                                          then r\<lparr>status := ''complete''\<rparr> else r) (triggers s)\<rparr>)
       \<and> final_store (run_early env s) = final_store (run_index env s)"
proof -
  note reach = cycle_reaches_persist [OF sel crawl0 crawl1 asst poll msgs]
  from reach(2) [OF persist_all_written [OF writes, of audit_row_stored t report s,
        folded persist_index_def]]
  have i: "store_writes (run_index env s)
           = [InsertAssessment (assessment_row t report), InsertAuditLog (audit_row_stored t),
              UpdateStatusComplete (trigger_id t)]"
    "final_store (run_index env s)
           = Some (s\<lparr>assessments := assessments s @ [assessment_row t report],
                    audit_logs := audit_logs s @ [audit_row_stored t],
                    triggers := map (\<lambda>r. if trigger_id r = trigger_id t
                                          then r\<lparr>status := ''complete''\<rparr> else r) (triggers s)\<rparr>)"
    by (auto simp: store_writes_def final_store_def)
  from reach(3) [OF persist_all_written [OF writes, of audit_row_later t report s,
        folded persist_later_def]]
  have l: "store_writes (run_later env s)
           = [InsertAssessment (assessment_row t report), InsertAuditLog (audit_row_later t),
              UpdateStatusComplete (trigger_id t)]"
    "final_store (run_later env s)
           = Some (s\<lparr>assessments := assessments s @ [assessment_row t report],
                    audit_logs := audit_logs s @ [audit_row_later t],
                    triggers := map (\<lambda>r. if trigger_id r = trigger_id t
                                          then r\<lparr>status := ''complete''\<rparr> else r) (triggers s)\<rparr>)"
    by (auto simp: store_writes_def final_store_def)
  from reach(1) [OF persist_early_all_written [OF writes, of t report s]]
  have e: "store_writes (run_early env s)
           = [InsertAssessment (assessment_row t report), UpdateStatusComplete (trigger_id t),
              InsertAuditLog (audit_row_stored t)]"
    "final_store (run_early env s)
           = Some (s\<lparr>assessments := assessments s @ [assessment_row t report],
                    audit_logs := audit_logs s @ [audit_row_stored t],
                    triggers := map (\<lambda>r. if trigger_id r = trigger_id t
                                          then r\<lparr>status := ''complete''\<rparr> else r) (triggers s)\<rparr>)"
    by (auto simp: store_writes_def final_store_def)
  from i l e show ?thesis by simp
qed

text \<open>C1 as stated fails in the first file of \<^verbatim>\<open>part_000\<close> (lines 72-90): on the
  specification's example the status update is issued before the audit insert.\<close>

theorem writes_order_early_counterexample:
  "store_writes (run_early acme_env acme_store)
     = [InsertAssessment (assessment_row acme_trigger (Some (JStr ''report''))),
        UpdateStatusComplete 1,
        InsertAuditLog (audit_row_stored acme_trigger)]
   \<and> store_writes (run_early acme_env acme_store)
     \<noteq> [InsertAssessment (assessment_row acme_trigger (Some (JStr ''report''))),
        InsertAuditLog (audit_row_stored acme_trigger),
        UpdateStatusComplete 1]"
proof -
  have w: "insert_assessment_reply acme_env = Resolved None"
    "insert_audit_reply acme_env = Resolved None" "update_status_reply acme_env = Resolved None"
    by (simp_all add: acme_env_def)
  from acme_cycle(1) [of "Resolved None" "Resolved None" "Resolved None", unfolded acme_env_plain,
      OF persist_early_all_written [OF w, of acme_trigger "Some (JStr ''report'')" acme_store]]
  have "store_writes (run_early acme_env acme_store)
     = [InsertAssessment (assessment_row acme_trigger (Some (JStr ''report''))),
        UpdateStatusComplete (trigger_id acme_trigger),
        InsertAuditLog (audit_row_stored acme_trigger)]"
    by (auto simp: store_writes_def)
  then show ?thesis by (simp add: acme_trigger_def)
qed

theorem writes_once_witness:
  "store_writes (run_index acme_env acme_store)
     = [InsertAssessment (assessment_row acme_trigger (Some (JStr ''report''))),
        InsertAuditLog (audit_row_stored acme_trigger),
        UpdateStatusComplete 1]
   \<and> map_option (map status \<circ> triggers) (final_store (run_index acme_env acme_store))
     = Some [''complete'']"
proof -
  have sel: "select_reply acme_env = Resolved (select_queued [acme_trigger])"
    "error (select_queued [acme_trigger]) = None"
    "data (select_queued [acme_trigger]) = Some [acme_trigger]"
    by (simp_all add: acme_env_def select_queued_def acme_trigger_def)
  have crawl0: "crawl_reply acme_env 0 (investor_site acme_trigger)
       = Resolved (JObj [(''pages'', JArr [home_page (investor_site acme_trigger)])])"
    and crawl1: "crawl_reply acme_env 1 (company_url acme_trigger)
       = Resolved (JObj [(''pages'', JArr [home_page (company_url acme_trigger)])])"
    by (simp_all add: acme_env_def)
  have asst: "threads_create acme_env = Resolved ''thread_1''"
    "messages_create acme_env = Resolved ()" "runs_create acme_env = Resolved ''run_1''"
    by (simp_all add: acme_env_def)
  have poll: "runs_retrieve acme_env 2 = Resolved ''completed''"
    "\<forall>j<2. runs_retrieve acme_env j \<noteq> Rejected"
    by (simp_all add: acme_env_def)
  have msgs: "messages_list acme_env = Resolved acme_messages"
    by (simp add: acme_env_def)
  have w: "insert_assessment_reply acme_env = Resolved None"
    "insert_audit_reply acme_env = Resolved None" "update_status_reply acme_env = Resolved None"
    by (simp_all add: acme_env_def)
  from writes_once_in_order [OF sel crawl0 acme_pages_text crawl1 acme_pages_text
      asst poll msgs acme_messages_text w, of acme_store]
  show ?thesis by (simp add: acme_trigger_def acme_store_def)
qed

text \<open>
  C7. The claim: a cycle whose write phase fails after the report insert and before the
  status update ends with the trigger still \<^verbatim>\<open>queued\<close>. The store's client reports a
  failed write by resolving with an \<^verbatim>\<open>error\<close>, as it does for the read, and the script
  reads the \<^verbatim>\<open>error\<close> of the read only. On the specification's example with the audit
  insert resolving with an \<^verbatim>\<open>error\<close>, the cycle of \<^verbatim>\<open>src/index.js\<close> and of the second
  file of \<^verbatim>\<open>part_000\<close> goes on: the three writes are issued, no audit row is stored, the
  trigger ends \<^verbatim>\<open>complete\<close>, the closing log line is printed and \<^verbatim>\<open>run\<close> returns.
\<close>

theorem audit_error_ignored:
  "store_writes (run_index (acme_env\<lparr>insert_audit_reply := Resolved (Some ''permission denied'')\<rparr>)
        acme_store)
     = [InsertAssessment (assessment_row acme_trigger (Some (JStr ''report''))),
        InsertAuditLog (audit_row_stored acme_trigger),
        UpdateStatusComplete 1]
   \<and> map_option (map status \<circ> triggers)
     (final_store (run_index (acme_env\<lparr>insert_audit_reply := Resolved (Some ''permission denied'')\<rparr>)
        acme_store)) = Some [''complete'']
   \<and> map_option audit_logs
     (final_store (run_index (acme_env\<lparr>insert_audit_reply := Resolved (Some ''permission denied'')\<rparr>)
        acme_store)) = Some []
   \<and> map_option fst
     (run_index (acme_env\<lparr>insert_audit_reply := Resolved (Some ''permission denied'')\<rparr>)
        acme_store) = Some Returned
   \<and> ConsoleLog (AssessmentDone ''Widget Co'')
     \<in> set (calls_of (run_index (acme_env\<lparr>insert_audit_reply := Resolved (Some ''permission denied'')\<rparr>)
        acme_store))
   \<and> store_writes (run_later (acme_env\<lparr>insert_audit_reply := Resolved (Some ''permission denied'')\<rparr>)
        acme_store)
     = [InsertAssessment (assessment_row acme_trigger (Some (JStr ''report''))),
        InsertAuditLog (audit_row_later acme_trigger),
        UpdateStatusComplete 1]
   \<and> map_option (map status \<circ> triggers)
     (final_store (run_later (acme_env\<lparr>insert_audit_reply := Resolved (Some ''permission denied'')\<rparr>)
        acme_store)) = Some [''complete'']
   \<and> map_option audit_logs
     (final_store (run_later (acme_env\<lparr>insert_audit_reply := Resolved (Some ''permission denied'')\<rparr>)
        acme_store)) = Some []
   \<and> ConsoleLog (AssessmentDone ''Widget Co'')
     \<in> set (calls_of (run_later (acme_env\<lparr>insert_audit_reply := Resolved (Some ''permission denied'')\<rparr>)
        acme_store))"
proof -
  let ?e = "acme_env\<lparr>insert_audit_reply := Resolved (Some ''permission denied'')\<rparr>"
  have w: "insert_assessment_reply ?e = Resolved None"
    "insert_audit_reply ?e = Resolved (Some ''permission denied'')"
    "update_status_reply ?e = Resolved None"
    by (simp_all add: acme_env_def)
  from acme_cycle(2) [of "Resolved None" "Resolved (Some ''permission denied'')" "Resolved None",
      unfolded acme_env_audit,
      OF persist_audit_refused [OF w, of audit_row_stored acme_trigger
        "Some (JStr ''report'')" acme_store, folded persist_index_def]]
  have i: "store_writes (run_index ?e acme_store)
     = [InsertAssessment (assessment_row acme_trigger (Some (JStr ''report''))),
        InsertAuditLog (audit_row_stored acme_trigger),
        UpdateStatusComplete 1]"
    "map_option (map status \<circ> triggers) (final_store (run_index ?e acme_store))
             = Some [''complete'']"
    "map_option audit_logs (final_store (run_index ?e acme_store)) = Some []"
    "map_option fst (run_index ?e acme_store) = Some Returned"
    "ConsoleLog (AssessmentDone ''Widget Co'') \<in> set (calls_of (run_index ?e acme_store))"
    by (auto simp: final_store_def store_writes_def calls_of_def settle_def acme_store_def
          acme_trigger_def)
  from acme_cycle(3) [of "Resolved None" "Resolved (Some ''permission denied'')" "Resolved None",
      unfolded acme_env_audit,
      OF persist_audit_refused [OF w, of audit_row_later acme_trigger
        "Some (JStr ''report'')" acme_store, folded persist_later_def]]
  have l: "store_writes (run_later ?e acme_store)
     = [InsertAssessment (assessment_row acme_trigger (Some (JStr ''report''))),
        InsertAuditLog (audit_row_later acme_trigger),
        UpdateStatusComplete 1]"
    "map_option (map status \<circ> triggers) (final_store (run_later ?e acme_store))
             = Some [''complete'']"
    "map_option audit_logs (final_store (run_later ?e acme_store)) = Some []"
    "ConsoleLog (AssessmentDone ''Widget Co'') \<in> set (calls_of (run_later ?e acme_store))"
    by (auto simp: final_store_def store_writes_def calls_of_def acme_store_def
          acme_trigger_def)
  from i l show ?thesis by blast
qed

text \<open>
  C10. Every audit row a cycle inserts has the action \<^verbatim>\<open>Assessment Complete\<close>, the
  confidence score 90, the \<^verbatim>\<open>company_url\<close> of the chosen trigger as its source URL and
  the details string of its revision: \<^verbatim>\<open>Report stored\<close> in \<^verbatim>\<open>src/index.js\<close> and in the
  first file of \<^verbatim>\<open>part_000\<close>, \<^verbatim>\<open>Assessment stored successfully\<close> in the second.
\<close>

theorem audit_row_fixed:
  assumes "select_reply env = Resolved res" and "data res = Some (t # rest)"
  shows "(run_early env s = Some (out, cs, s') \<longrightarrow> InsertAuditLog l \<in> set cs \<longrightarrow>
            l = \<lparr>action = ''Assessment Complete'', source_url = company_url t,
                 confidence_score = 90, details = ''Report stored''\<rparr>)
       \<and> (run_index env s = Some (out, cs, s') \<longrightarrow> InsertAuditLog l \<in> set cs \<longrightarrow>
            l = \<lparr>action = ''Assessment Complete'', source_url = company_url t,
                 confidence_score = 90, details = ''Report stored''\<rparr>)
       \<and> (run_later env s = Some (out, cs, s') \<longrightarrow> InsertAuditLog l \<in> set cs \<longrightarrow>
            l = \<lparr>action = ''Assessment Complete'', source_url = company_url t,
                 confidence_score = 90, details = ''Assessment stored successfully''\<rparr>)"
proof (intro conjI impI)
  assume run: "run_early env s = Some (out, cs, s')" and l: "InsertAuditLog l \<in> set cs"
  from run_early_shape [OF run] assms l
  obtain report r c4 where "persist_early env t report s = (r, c4, s')"
    "InsertAuditLog l \<in> set c4"
    by (auto dest: no_write_in_empty_filter [where c = "InsertAuditLog l"]
          write_in_same_filter [where c = "InsertAuditLog l"])
  then have "l = audit_row_stored t" by (rule persist_early_audit)
  then show "l = \<lparr>action = ''Assessment Complete'', source_url = company_url t,
                 confidence_score = 90, details = ''Report stored''\<rparr>"
    by (simp add: audit_row_stored_def)
next
  assume run: "run_index env s = Some (out, cs, s')" and l: "InsertAuditLog l \<in> set cs"
  from run_index_shape [OF run] assms l
  obtain report r c4 where "persist audit_row_stored env t report s = (r, c4, s')"
    "InsertAuditLog l \<in> set c4"
    by (auto simp: persist_index_def dest: no_write_in_empty_filter [where c = "InsertAuditLog l"]
          write_in_same_filter [where c = "InsertAuditLog l"])
  then have "l = audit_row_stored t" by (rule persist_audit)
  then show "l = \<lparr>action = ''Assessment Complete'', source_url = company_url t,
                 confidence_score = 90, details = ''Report stored''\<rparr>"
    by (simp add: audit_row_stored_def)
next
  assume run: "run_later env s = Some (out, cs, s')" and l: "InsertAuditLog l \<in> set cs"
  from run_later_shape [OF run] assms l
  obtain report r c4 where "persist audit_row_later env t report s = (r, c4, s')"
    "InsertAuditLog l \<in> set c4"
    by (auto simp: persist_later_def dest: no_write_in_empty_filter [where c = "InsertAuditLog l"]
          write_in_same_filter [where c = "InsertAuditLog l"])
  then have "l = audit_row_later t" by (rule persist_audit)
  then show "l = \<lparr>action = ''Assessment Complete'', source_url = company_url t,
                 confidence_score = 90, details = ''Assessment stored successfully''\<rparr>"
    by (simp add: audit_row_later_def)
qed

theorem audit_row_witness:
  "select_reply acme_env = Resolved (select_queued [acme_trigger])
   \<and> data (select_queued [acme_trigger]) = Some [acme_trigger]
   \<and> (\<exists>out cs s'. run_early acme_env acme_store = Some (out, cs, s')
        \<and> InsertAuditLog (audit_row_stored acme_trigger) \<in> set cs)
   \<and> (\<exists>out cs s'. run_index acme_env acme_store = Some (out, cs, s')
        \<and> InsertAuditLog (audit_row_stored acme_trigger) \<in> set cs)
   \<and> (\<exists>out cs s'. run_later acme_env acme_store = Some (out, cs, s')
        \<and> InsertAuditLog (audit_row_later acme_trigger) \<in> set cs)
   \<and> audit_row_stored acme_trigger
       = \<lparr>action = ''Assessment Complete'', source_url = ''https://widget.co'',
          confidence_score = 90, details = ''Report stored''\<rparr>
   \<and> audit_row_later acme_trigger
       = \<lparr>action = ''Assessment Complete'', source_url = ''https://widget.co'',
          confidence_score = 90, details = ''Assessment stored successfully''\<rparr>"
proof -
  have sel: "select_reply acme_env = Resolved (select_queued [acme_trigger])"
    "data (select_queued [acme_trigger]) = Some (acme_trigger # [])"
    by (simp_all add: acme_env_def select_queued_def acme_trigger_def)
  have w: "insert_assessment_reply acme_env = Resolved None"
    "insert_audit_reply acme_env = Resolved None" "update_status_reply acme_env = Resolved None"
    by (simp_all add: acme_env_def)
  from acme_cycle(1) [of "Resolved None" "Resolved None" "Resolved None", unfolded acme_env_plain,
      OF persist_early_all_written [OF w, of acme_trigger "Some (JStr ''report'')" acme_store]]
  obtain oe ce se where e: "run_early acme_env acme_store = Some (oe, ce, se)"
    "InsertAuditLog (audit_row_stored acme_trigger) \<in> set ce"
    by auto
  from acme_cycle(2) [of "Resolved None" "Resolved None" "Resolved None", unfolded acme_env_plain,
      OF persist_all_written [OF w, of audit_row_stored acme_trigger "Some (JStr ''report'')"
        acme_store, folded persist_index_def]]
  obtain oi ci si where i: "run_index acme_env acme_store = Some (oi, ci, si)"
    "InsertAuditLog (audit_row_stored acme_trigger) \<in> set ci"
    by auto
  from acme_cycle(3) [of "Resolved None" "Resolved None" "Resolved None", unfolded acme_env_plain,
      OF persist_all_written [OF w, of audit_row_later acme_trigger "Some (JStr ''report'')"
        acme_store, folded persist_later_def]]
  obtain ol cl sl where l: "run_later acme_env acme_store = Some (ol, cl, sl)"
    "InsertAuditLog (audit_row_later acme_trigger) \<in> set cl"
    by auto
  from audit_row_fixed [OF sel, of acme_store oe ce se "audit_row_stored acme_trigger"] e
  have 1: "audit_row_stored acme_trigger
       = \<lparr>action = ''Assessment Complete'', source_url = company_url acme_trigger,
          confidence_score = 90, details = ''Report stored''\<rparr>"
    by blast
  from audit_row_fixed [OF sel, of acme_store ol cl sl "audit_row_later acme_trigger"] l
  have 2: "audit_row_later acme_trigger
       = \<lparr>action = ''Assessment Complete'', source_url = company_url acme_trigger,
          confidence_score = 90, details = ''Assessment stored successfully''\<rparr>"
    by blast
  have u: "company_url acme_trigger = ''https://widget.co''" by (simp add: acme_trigger_def)
  from sel e i l 1 2 show ?thesis unfolding u by blast
qed

end
